theory Spec2Isabelle
  imports Main "HOL-Library.AList"
begin

section \<open>Paths and timestamps (the standard-library values the scraper builds)\<close>

text \<open>
  \<^verbatim>\<open>config.py\<close> builds its directories with \<^verbatim>\<open>pathlib.Path\<close> and the
  scraper joins a file name onto \<^verbatim>\<open>SCREENSHOTS_DIR\<close> with the \<^verbatim>\<open>/\<close> operator and
  turns the result into a string. A POSIX path is a root (empty, one slash or two
  slashes) and its components. Parsing a string drops empty components and single
  dots; joining a string that has a root of its own replaces the left operand.
\<close>

record ppath =
  root :: string
  parts :: "string list"

fun split_on :: "char \<Rightarrow> string \<Rightarrow> string list" where
  "split_on c [] = [[]]"
| "split_on c (x # xs) =
     (if x = c then [] # split_on c xs
      else (case split_on c xs of [] \<Rightarrow> [[x]] | w # ws \<Rightarrow> (x # w) # ws))"

definition path_root :: "string \<Rightarrow> string" where
  "path_root s =
     (if take 3 s = ''///'' then ''/''
      else if take 2 s = ''//'' then ''//''
      else if take 1 s = ''/'' then ''/''
      else '''')"

definition parse_path :: "string \<Rightarrow> ppath" where
  "parse_path s =
     \<lparr>root = path_root s,
      parts = filter (\<lambda>c. c \<noteq> '''' \<and> c \<noteq> ''.'') (split_on (CHR ''/'') s)\<rparr>"

definition joinpath :: "ppath \<Rightarrow> string \<Rightarrow> ppath" where
  "joinpath p s =
     (let q = parse_path s
      in if root q \<noteq> '''' then q
         else \<lparr>root = root p, parts = parts p @ parts q\<rparr>)"

fun intercalate :: "string \<Rightarrow> string list \<Rightarrow> string" where
  "intercalate sep [] = ''''"
| "intercalate sep [x] = x"
| "intercalate sep (x # y # ys) = x @ sep @ intercalate sep (y # ys)"

definition path_str :: "ppath \<Rightarrow> string" where
  "path_str p =
     (if root p = '''' \<and> parts p = [] then ''.''
      else root p @ intercalate ''/'' (parts p))"

definition path_name :: "ppath \<Rightarrow> string" where
  "path_name p = (case parts p of [] \<Rightarrow> '''' | _ \<Rightarrow> last (parts p))"

definition path_parent :: "ppath \<Rightarrow> ppath" where
  "path_parent p = p\<lparr>parts := butlast (parts p)\<rparr>"

text \<open>
  \<^verbatim>\<open>datetime.now()\<close> gives a calendar time; \<^verbatim>\<open>strftime\<close> replaces each directive
  of the format by zero-padded decimal digits and copies every other character. The
  year is padded to four digits, the other fields to two; a number with more digits than
  the width is written in full.
\<close>

record datetime =
  year :: nat
  month :: nat
  day :: nat
  hour :: nat
  minute :: nat
  second :: nat
  microsecond :: nat

definition digit_char :: "nat \<Rightarrow> char" where
  "digit_char n = ''0123456789'' ! (n mod 10)"

fun zero_pad :: "nat \<Rightarrow> nat \<Rightarrow> string" where
  "zero_pad 0 n = (if n = 0 then '''' else zero_pad 0 (n div 10) @ [digit_char n])"
| "zero_pad (Suc w) n = zero_pad w (n div 10) @ [digit_char n]"

declare zero_pad.simps(1) [simp del]

fun directive :: "char \<Rightarrow> datetime \<Rightarrow> string" where
  "directive c t =
     (if c = CHR ''Y'' then zero_pad 4 (year t)
      else if c = CHR ''m'' then zero_pad 2 (month t)
      else if c = CHR ''d'' then zero_pad 2 (day t)
      else if c = CHR ''H'' then zero_pad 2 (hour t)
      else if c = CHR ''M'' then zero_pad 2 (minute t)
      else if c = CHR ''S'' then zero_pad 2 (second t)
      else if c = CHR ''%'' then ''%''
      else [CHR ''%'', c])"

fun strftime :: "string \<Rightarrow> datetime \<Rightarrow> string" where
  "strftime [] t = []"
| "strftime [c] t = [c]"
| "strftime (c # d # cs) t =
     (if c = CHR ''%'' then directive d t @ strftime cs t
      else c # strftime (d # cs) t)"

section \<open>Configuration (config.py)\<close>

text \<open>
  \<^verbatim>\<open>BASE_DIR\<close> is the directory of the installed module, so it is a parameter of
  \<^verbatim>\<open>SCREENSHOTS_DIR\<close>. The symbol table is a dictionary: its items in insertion
  order.
\<close>

definition SCREENSHOTS_DIR :: "ppath \<Rightarrow> ppath" where
  "SCREENSHOTS_DIR base_dir = joinpath base_dir ''screenshots''"

definition CRYPTO_SYMBOLS :: "(string \<times> string) list" where
  "CRYPTO_SYMBOLS =
     [(''BTC'', ''https://www.tradingview.com/chart/?symbol=BINANCE%3ABTCUSDT''),
      (''ETH'', ''https://www.tradingview.com/chart/?symbol=BINANCE%3AETHUSDT''),
      (''SOL'', ''https://www.tradingview.com/chart/?symbol=BINANCE%3ASOLUSDT'')]"

definition SCREENSHOT_WIDTH :: nat where "SCREENSHOT_WIDTH = 1920"
definition SCREENSHOT_HEIGHT :: nat where "SCREENSHOT_HEIGHT = 1080"
definition BROWSER_HEADLESS :: bool where "BROWSER_HEADLESS = True"
definition BROWSER_TIMEOUT :: nat where "BROWSER_TIMEOUT = 30000"
definition SCREENSHOT_INTERVAL_MINUTES :: nat where "SCREENSHOT_INTERVAL_MINUTES = 1"
definition TIMESTAMP_FORMAT :: string where "TIMESTAMP_FORMAT = ''%Y%m%d_%H%M%S''"

section \<open>The scraper (tradingview_scraper.py)\<close>

subsection \<open>Exceptions, the browser library and the scraper's state\<close>

text \<open>
  The scraper raises \<^verbatim>\<open>RuntimeError\<close> itself; the libraries it calls (the browser
  automation and the scheduler) raise error classes of their own, subclasses of
  \<^verbatim>\<open>Exception\<close>, here \<open>LibraryError\<close> with the message. \<^verbatim>\<open>KeyboardInterrupt\<close> is
  not an \<^verbatim>\<open>Exception\<close>: the handlers written \<^verbatim>\<open>except Exception\<close> let it pass. No
  call of the model raises it; it is there for the handlers that name it.
  \<open>exn_str\<close> is \<^verbatim>\<open>str(e)\<close>, the text the log lines interpolate.
\<close>

datatype exn = RuntimeError string | LibraryError string | KeyboardInterrupt

fun is_Exception :: "exn \<Rightarrow> bool" where
  "is_Exception KeyboardInterrupt = False"
| "is_Exception (RuntimeError m) = True"
| "is_Exception (LibraryError m) = True"

fun exn_str :: "exn \<Rightarrow> string" where
  "exn_str (RuntimeError m) = m"
| "exn_str (LibraryError m) = m"
| "exn_str KeyboardInterrupt = []"

text \<open>
  The browser is an external collaborator. Each awaited call either completes or raises
  the library's error with a message; which of the two is the environment's choice, given
  to the model as a \<open>reply\<close>. Every awaited call is recorded in \<open>calls\<close>, in order.
\<close>

datatype reply = Ok | Fail string

datatype level = INFO | WARNING | ERROR

datatype Browser = BrowserHandle

datatype call =
    StartPlaywright
  | Launch bool "string list"
  | CloseBrowser
  | NewPage
  | SetViewportSize nat nat nat
  | Goto nat string nat
  | WaitForSelector nat string nat
  | Sleep nat
  | Evaluate nat
  | Screenshot nat string
  | ClosePage nat

text \<open>
  \<open>browser\<close> is the attribute \<^verbatim>\<open>self.browser\<close>. The other fields are what the scraper
  does to the world: the lines it logs, the calls it awaits, the pages that are open
  (a page is a number, \<open>next_page\<close> the next fresh one) and the files written.
\<close>

record tv_scraper =
  browser :: "Browser option"
  logs :: "(level \<times> string) list"
  calls :: "call list"
  open_pages :: "nat set"
  next_page :: nat
  files :: "string set"

definition new_scraper :: tv_scraper where
  "new_scraper =
     \<lparr>browser = None, logs = [], calls = [], open_pages = {}, next_page = 0, files = {}\<rparr>"

definition log_msg :: "level \<Rightarrow> string \<Rightarrow> tv_scraper \<Rightarrow> tv_scraper" where
  "log_msg l m s = s\<lparr>logs := logs s @ [(l, m)]\<rparr>"

definition lib_call :: "reply \<Rightarrow> call \<Rightarrow> tv_scraper \<Rightarrow> (exn + unit) \<times> tv_scraper" where
  "lib_call r c s =
     (case r of
        Ok \<Rightarrow> (Inr (), s\<lparr>calls := calls s @ [c]\<rparr>)
      | Fail m \<Rightarrow> (Inl (LibraryError m), s\<lparr>calls := calls s @ [c]\<rparr>))"

subsection \<open>start_browser and close_browser\<close>

definition start_browser :: "reply \<Rightarrow> reply \<Rightarrow> tv_scraper \<Rightarrow> (exn + unit) \<times> tv_scraper" where
  "start_browser playwright_r launch_r s =
     (case
        (case lib_call playwright_r StartPlaywright s of
           (Inl ex, s1) \<Rightarrow> (Inl ex, s1)
         | (Inr _, s1) \<Rightarrow>
             (case lib_call launch_r
                     (Launch BROWSER_HEADLESS [''--no-sandbox'', ''--disable-dev-shm-usage'']) s1 of
                (Inl ex, s2) \<Rightarrow> (Inl ex, s2)
              | (Inr _, s2) \<Rightarrow>
                  (Inr (), log_msg INFO ''Browser started successfully''
                             (s2\<lparr>browser := Some BrowserHandle\<rparr>))))
      of
        (Inr u, s') \<Rightarrow> (Inr u, s')
      | (Inl ex, s') \<Rightarrow>
          (if is_Exception ex
           then (Inl ex, log_msg ERROR (''Failed to start browser: '' @ exn_str ex) s')
           else (Inl ex, s')))"

text \<open>\<^verbatim>\<open>close_browser\<close> leaves \<^verbatim>\<open>self.browser\<close> as it is: the attribute is never reset.\<close>

definition close_browser :: "reply \<Rightarrow> tv_scraper \<Rightarrow> (exn + unit) \<times> tv_scraper" where
  "close_browser browser_close_r s =
     (case browser s of
        None \<Rightarrow> (Inr (), s)
      | Some b \<Rightarrow>
          (case lib_call browser_close_r CloseBrowser s of
             (Inl ex, s1) \<Rightarrow> (Inl ex, s1)
           | (Inr _, s1) \<Rightarrow> (Inr (), log_msg INFO ''Browser closed'' (s1\<lparr>open_pages := {}\<rparr>))))"

subsection \<open>One capture\<close>

text \<open>
  The replies of the browser to the calls of one \<^verbatim>\<open>capture_screenshot\<close>, which makes
  each call at most once, and the reading of the clock it takes.
\<close>

record page_env =
  new_page_r :: reply
  viewport_r :: reply
  goto_r :: reply
  selector_r :: reply
  evaluate_r :: reply
  screenshot_r :: reply
  close_r :: reply
  now_r :: datetime

definition new_page :: "reply \<Rightarrow> tv_scraper \<Rightarrow> (exn + nat) \<times> tv_scraper" where
  "new_page r s =
     (case lib_call r NewPage s of
        (Inl ex, s1) \<Rightarrow> (Inl ex, s1)
      | (Inr _, s1) \<Rightarrow>
          (Inr (next_page s1),
           s1\<lparr>open_pages := insert (next_page s1) (open_pages s1),
              next_page := Suc (next_page s1)\<rparr>))"

definition page_screenshot :: "reply \<Rightarrow> nat \<Rightarrow> string \<Rightarrow> tv_scraper \<Rightarrow> (exn + unit) \<times> tv_scraper" where
  "page_screenshot r page path s =
     (case lib_call r (Screenshot page path) s of
        (Inl ex, s1) \<Rightarrow> (Inl ex, s1)
      | (Inr _, s1) \<Rightarrow> (Inr (), s1\<lparr>files := insert path (files s1)\<rparr>))"

definition page_close :: "reply \<Rightarrow> nat \<Rightarrow> tv_scraper \<Rightarrow> (exn + unit) \<times> tv_scraper" where
  "page_close r page s =
     (case lib_call r (ClosePage page) s of
        (Inl ex, s1) \<Rightarrow> (Inl ex, s1)
      | (Inr _, s1) \<Rightarrow> (Inr (), s1\<lparr>open_pages := open_pages s1 - {page}\<rparr>))"

definition CHART_SELECTOR :: string where
  "CHART_SELECTOR =
     ''[data-name='' @ [char_of (34::nat)] @ ''legend-source-item'' @ [char_of (34::nat)] @ '']''"

definition wait_for_chart_load :: "page_env \<Rightarrow> nat \<Rightarrow> tv_scraper \<Rightarrow> (exn + unit) \<times> tv_scraper" where
  "wait_for_chart_load e page s =
     (case lib_call (selector_r e) (WaitForSelector page CHART_SELECTOR BROWSER_TIMEOUT) s of
        (Inr _, s1) \<Rightarrow>
          (Inr (), log_msg INFO ''Chart loaded successfully'' (s1\<lparr>calls := calls s1 @ [Sleep 3]\<rparr>))
      | (Inl ex, s1) \<Rightarrow>
          (if is_Exception ex
           then (Inr (), log_msg WARNING (''Chart loading timeout or error: '' @ exn_str ex) s1)
           else (Inl ex, s1)))"

definition configure_chart_view :: "page_env \<Rightarrow> nat \<Rightarrow> tv_scraper \<Rightarrow> (exn + unit) \<times> tv_scraper" where
  "configure_chart_view e page s =
     (case lib_call (evaluate_r e) (Evaluate page) s of
        (Inr _, s1) \<Rightarrow> (Inr (), log_msg INFO ''Chart view configured'' s1)
      | (Inl ex, s1) \<Rightarrow>
          (if is_Exception ex
           then (Inr (), log_msg WARNING (''Could not configure chart view: '' @ exn_str ex) s1)
           else (Inl ex, s1)))"

definition screenshot_filename :: "page_env \<Rightarrow> string \<Rightarrow> string" where
  "screenshot_filename e symbol = symbol @ ''_'' @ strftime TIMESTAMP_FORMAT (now_r e) @ ''.png''"

definition screenshot_filepath :: "ppath \<Rightarrow> page_env \<Rightarrow> string \<Rightarrow> ppath" where
  "screenshot_filepath base_dir e symbol =
     joinpath (SCREENSHOTS_DIR base_dir) (screenshot_filename e symbol)"

text \<open>
  The body of the \<^verbatim>\<open>try\<close> block: the page it created (if any), then either the
  exception that left the block or the value of its \<^verbatim>\<open>return\<close>, and the state.
\<close>

definition try_capture ::
  "ppath \<Rightarrow> page_env \<Rightarrow> string \<Rightarrow> string \<Rightarrow> tv_scraper \<Rightarrow> nat option \<times> (exn + string) \<times> tv_scraper" where
  "try_capture base_dir e symbol url s =
     (case new_page (new_page_r e) s of
        (Inl ex, s1) \<Rightarrow> (None, Inl ex, s1)
      | (Inr page, s1) \<Rightarrow>
     (case lib_call (viewport_r e) (SetViewportSize page SCREENSHOT_WIDTH SCREENSHOT_HEIGHT) s1 of
        (Inl ex, s2) \<Rightarrow> (Some page, Inl ex, s2)
      | (Inr _, s2) \<Rightarrow>
     (case lib_call (goto_r e) (Goto page url BROWSER_TIMEOUT)
             (log_msg INFO (''Navigating to '' @ symbol @ '' chart...'') s2) of
        (Inl ex, s3) \<Rightarrow> (Some page, Inl ex, s3)
      | (Inr _, s3) \<Rightarrow>
     (case wait_for_chart_load e page s3 of
        (Inl ex, s4) \<Rightarrow> (Some page, Inl ex, s4)
      | (Inr _, s4) \<Rightarrow>
     (case configure_chart_view e page s4 of
        (Inl ex, s5) \<Rightarrow> (Some page, Inl ex, s5)
      | (Inr _, s5) \<Rightarrow>
     (let filepath = screenshot_filepath base_dir e symbol
      in (case page_screenshot (screenshot_r e) page (path_str filepath) s5 of
            (Inl ex, s6) \<Rightarrow> (Some page, Inl ex, s6)
          | (Inr _, s6) \<Rightarrow>
              (Some page, Inr (path_str filepath),
               log_msg INFO (''Screenshot saved: '' @ path_str filepath) s6))))))))"

definition init_error :: exn where
  "init_error = RuntimeError ''Browser not initialized. Call start_browser() first.''"

text \<open>
  \<^verbatim>\<open>capture_screenshot\<close>: the check of \<^verbatim>\<open>self.browser\<close>, the \<^verbatim>\<open>try\<close> block, the
  handler \<^verbatim>\<open>except Exception\<close> (log and return \<^verbatim>\<open>None\<close>), and the \<^verbatim>\<open>finally\<close>
  block, which closes the page when one was created. An exception raised by the
  \<^verbatim>\<open>finally\<close> block replaces the pending return value.
\<close>

definition capture_screenshot ::
  "ppath \<Rightarrow> page_env \<Rightarrow> string \<Rightarrow> string \<Rightarrow> tv_scraper \<Rightarrow> (exn + string option) \<times> tv_scraper" where
  "capture_screenshot base_dir e symbol url s =
     (if browser s = None then (Inl init_error, s)
      else
        (case try_capture base_dir e symbol url s of
           (page, r, s1) \<Rightarrow>
             (case (case r of
                      Inr filepath \<Rightarrow> (Inr (Some filepath), s1)
                    | Inl ex \<Rightarrow>
                        (if is_Exception ex
                         then (Inr None,
                               log_msg ERROR (''Failed to capture screenshot for '' @ symbol
                                              @ '': '' @ exn_str ex) s1)
                         else (Inl ex, s1)))
              of (r2, s2) \<Rightarrow>
                (case page of
                   None \<Rightarrow> (r2, s2)
                 | Some p \<Rightarrow>
                     (case page_close (close_r e) p s2 of
                        (Inl ex, s3) \<Rightarrow> (Inl ex, s3)
                      | (Inr _, s3) \<Rightarrow> (r2, s3))))))"

subsection \<open>The aggregator\<close>

text \<open>
  \<^verbatim>\<open>capture_all_screenshots\<close> walks the items of the symbol table in order. The result
  dictionary is a list of items; \<^verbatim>\<open>results[symbol] = v\<close> is \<^const>\<open>AList.update\<close>, which
  replaces the value of a key that is present and appends a new key otherwise. The
  environment gives the browser's replies for each symbol's capture.
\<close>

type_synonym results = "(string \<times> string option) list"

fun capture_all_items ::
  "ppath \<Rightarrow> (string \<Rightarrow> page_env) \<Rightarrow> (string \<times> string) list \<Rightarrow> results \<Rightarrow> tv_scraper
     \<Rightarrow> (exn + results) \<times> tv_scraper" where
  "capture_all_items base_dir env [] results s = (Inr results, s)"
| "capture_all_items base_dir env ((symbol, url) # rest) results s =
     (case capture_screenshot base_dir (env symbol) symbol url s of
        (Inr filepath, s1) \<Rightarrow>
          capture_all_items base_dir env rest (AList.update symbol filepath results) s1
      | (Inl ex, s1) \<Rightarrow>
          (if is_Exception ex
           then capture_all_items base_dir env rest (AList.update symbol None results)
                  (log_msg ERROR (''Error capturing '' @ symbol @ '': '' @ exn_str ex) s1)
           else (Inl ex, s1)))"

definition capture_all_screenshots ::
  "ppath \<Rightarrow> (string \<Rightarrow> page_env) \<Rightarrow> tv_scraper \<Rightarrow> (exn + results) \<times> tv_scraper" where
  "capture_all_screenshots base_dir env s = capture_all_items base_dir env CRYPTO_SYMBOLS [] s"

section \<open>The pipeline (screenshot_pipeline.py)\<close>

subsection \<open>State and environment\<close>

text \<open>
  The pipeline owns a scraper and a scheduler. Of the scheduler the model keeps what the
  pipeline uses: whether it is running and the jobs added to it, each with its identifier
  and its \<^verbatim>\<open>max_instances\<close>. \<open>running\<close> is the flag the signal handler clears.
\<close>

record screenshot_pipeline =
  scraper :: tv_scraper
  scheduler_running :: bool
  jobs :: "(string \<times> nat) list"
  running :: bool
  pipeline_logs :: "(level \<times> string) list"

definition new_pipeline :: screenshot_pipeline where
  "new_pipeline =
     \<lparr>scraper = new_scraper, scheduler_running = False, jobs = [], running = False,
      pipeline_logs = []\<rparr>"

definition plog :: "level \<Rightarrow> string \<Rightarrow> screenshot_pipeline \<Rightarrow> screenshot_pipeline" where
  "plog l m p = p\<lparr>pipeline_logs := pipeline_logs p @ [(l, m)]\<rparr>"

text \<open>
  What the environment decides during one life of the pipeline: the replies to the calls
  that start and stop the browser and the scheduler, the browser's replies during the
  initial capture, and the shutdown signal: after how many one-second sleeps of the idle
  loop it arrives and its number, or \<open>None\<close> when no signal ever arrives.
\<close>

record run_env =
  playwright_r :: reply
  launch_r :: reply
  add_job_r :: reply
  scheduler_start_r :: reply
  initial_env :: "string \<Rightarrow> page_env"
  shutdown_signal :: "(nat \<times> nat) option"
  shutdown_r :: reply
  browser_close_r :: reply

definition MAX_INSTANCES :: nat where "MAX_INSTANCES = 1"

definition str_nat :: "nat \<Rightarrow> string" where
  "str_nat n = (if n = 0 then ''0'' else zero_pad 0 n)"

definition CHECK_MARK :: string where
  "CHECK_MARK = map char_of [226, 156, 147 :: nat]"

definition CROSS_MARK :: string where
  "CROSS_MARK = map char_of [226, 156, 151 :: nat]"

subsection \<open>The job\<close>

text \<open>A file path counts as a success when it is truthy: not \<^verbatim>\<open>None\<close> and not empty.\<close>

definition truthy :: "string option \<Rightarrow> bool" where
  "truthy filepath = (case filepath of None \<Rightarrow> False | Some f \<Rightarrow> f \<noteq> [])"

fun log_results :: "results \<Rightarrow> screenshot_pipeline \<Rightarrow> screenshot_pipeline" where
  "log_results [] p = p"
| "log_results ((symbol, filepath) # rest) p =
     log_results rest
       (case filepath of
          None \<Rightarrow> plog ERROR (CROSS_MARK @ '' '' @ symbol @ '': Failed to capture'') p
        | Some f \<Rightarrow>
            (if f = [] then plog ERROR (CROSS_MARK @ '' '' @ symbol @ '': Failed to capture'') p
             else plog INFO (CHECK_MARK @ '' '' @ symbol @ '': '' @ path_name (parse_path f)) p))"

definition capture_screenshots_job ::
  "ppath \<Rightarrow> (string \<Rightarrow> page_env) \<Rightarrow> screenshot_pipeline \<Rightarrow> (exn + unit) \<times> screenshot_pipeline" where
  "capture_screenshots_job base_dir env p =
     (let p1 = plog INFO ''Starting screenshot capture job...'' p
      in (case capture_all_screenshots base_dir env (scraper p1) of
            (Inr results, s) \<Rightarrow>
              (let successful = length (filter (\<lambda>(symbol, filepath). truthy filepath) results);
                   total = length results;
                   p2 = plog INFO (''Screenshot job completed: '' @ str_nat successful @ ''/''
                                   @ str_nat total @ '' successful'') (p1\<lparr>scraper := s\<rparr>)
               in (Inr (), log_results results p2))
          | (Inl ex, s) \<Rightarrow>
              (if is_Exception ex
               then (Inr (), plog ERROR (''Error in screenshot job: '' @ exn_str ex)
                               (p1\<lparr>scraper := s\<rparr>))
               else (Inl ex, p1\<lparr>scraper := s\<rparr>))))"

subsection \<open>stop\<close>

definition scheduler_shutdown :: "reply \<Rightarrow> screenshot_pipeline \<Rightarrow> (exn + unit) \<times> screenshot_pipeline" where
  "scheduler_shutdown r p =
     (case r of
        Ok \<Rightarrow> (Inr (), p\<lparr>scheduler_running := False\<rparr>)
      | Fail m \<Rightarrow> (Inl (LibraryError m), p))"

definition stop :: "reply \<Rightarrow> reply \<Rightarrow> screenshot_pipeline \<Rightarrow> (exn + unit) \<times> screenshot_pipeline" where
  "stop sched_reply close_reply p =
     (let p1 = plog INFO ''Stopping pipeline...'' p
      in (case (if scheduler_running p1 then scheduler_shutdown sched_reply p1 else (Inr (), p1)) of
            (Inl ex, p2) \<Rightarrow> (Inl ex, p2)
          | (Inr _, p2) \<Rightarrow>
              (case close_browser close_reply (scraper p2) of
                 (Inl ex, s) \<Rightarrow> (Inl ex, p2\<lparr>scraper := s\<rparr>)
               | (Inr _, s) \<Rightarrow>
                   (Inr (), plog INFO ''Pipeline stopped successfully'' (p2\<lparr>scraper := s\<rparr>)))))"

subsection \<open>start\<close>

definition add_job :: "reply \<Rightarrow> screenshot_pipeline \<Rightarrow> (exn + unit) \<times> screenshot_pipeline" where
  "add_job r p =
     (case r of
        Ok \<Rightarrow> (Inr (), p\<lparr>jobs := jobs p @ [(''screenshot_job'', MAX_INSTANCES)]\<rparr>)
      | Fail m \<Rightarrow> (Inl (LibraryError m), p))"

definition scheduler_start :: "reply \<Rightarrow> screenshot_pipeline \<Rightarrow> (exn + unit) \<times> screenshot_pipeline" where
  "scheduler_start r p =
     (case r of
        Ok \<Rightarrow> (Inr (), p\<lparr>scheduler_running := True\<rparr>)
      | Fail m \<Rightarrow> (Inl (LibraryError m), p))"

definition signal_handler :: "nat \<Rightarrow> screenshot_pipeline \<Rightarrow> screenshot_pipeline" where
  "signal_handler signum p =
     (plog INFO (''Received signal '' @ str_nat signum @ '', shutting down...'') p)
       \<lparr>running := False\<rparr>"

definition sleep_one :: "screenshot_pipeline \<Rightarrow> screenshot_pipeline" where
  "sleep_one p = p\<lparr>scraper := (scraper p)\<lparr>calls := calls (scraper p) @ [Sleep 1]\<rparr>\<rparr>"

text \<open>
  The idle loop \<^verbatim>\<open>while self.running: await asyncio.sleep(1)\<close>. The signal handler runs
  during the sleep in which the signal arrives. With no signal the loop never ends: the
  value is \<open>None\<close>.
\<close>

fun idle_loop :: "(nat \<times> nat) option \<Rightarrow> screenshot_pipeline \<Rightarrow> screenshot_pipeline option" where
  "idle_loop None p = (if running p then None else Some p)"
| "idle_loop (Some (0, signum)) p =
     (if running p then idle_loop None (signal_handler signum (sleep_one p)) else Some p)"
| "idle_loop (Some (Suc n, signum)) p =
     (if running p then idle_loop (Some (n, signum)) (sleep_one p) else Some p)"

text \<open>
  The body of the \<^verbatim>\<open>try\<close> block of \<^verbatim>\<open>start\<close>. The runs that the scheduler itself
  starts on its interval are tasks of their own and are not part of this control flow.
\<close>

definition start_body ::
  "ppath \<Rightarrow> run_env \<Rightarrow> screenshot_pipeline \<Rightarrow> ((exn + unit) \<times> screenshot_pipeline) option" where
  "start_body base_dir env p =
     (let p1 = plog INFO ''Starting TradingView Screenshot Pipeline...'' p
      in (case start_browser (playwright_r env) (launch_r env) (scraper p1) of
            (Inl ex, s) \<Rightarrow> Some (Inl ex, p1\<lparr>scraper := s\<rparr>)
          | (Inr _, s) \<Rightarrow>
         (case add_job (add_job_r env) (p1\<lparr>scraper := s\<rparr>) of
            (Inl ex, p2) \<Rightarrow> Some (Inl ex, p2)
          | (Inr _, p2) \<Rightarrow>
         (case scheduler_start (scheduler_start_r env) p2 of
            (Inl ex, p3) \<Rightarrow> Some (Inl ex, p3)
          | (Inr _, p3) \<Rightarrow>
         (let p4 = plog INFO ''Press Ctrl+C to stop the pipeline''
                     (plog INFO (''Pipeline started. Screenshots will be captured every ''
                                 @ str_nat SCREENSHOT_INTERVAL_MINUTES @ '' minute(s)'')
                        (p3\<lparr>running := True\<rparr>))
          in (case capture_screenshots_job base_dir (initial_env env) p4 of
                (Inl ex, p5) \<Rightarrow> Some (Inl ex, p5)
              | (Inr _, p5) \<Rightarrow>
                  (case idle_loop (shutdown_signal env) p5 of
                     None \<Rightarrow> None
                   | Some p6 \<Rightarrow> Some (Inr (), p6))))))))"

text \<open>
  \<^verbatim>\<open>start\<close>: the \<^verbatim>\<open>try\<close> block, the two handlers and the \<^verbatim>\<open>finally\<close> block, which
  awaits \<^verbatim>\<open>stop\<close>. Both handlers log and fall through, so \<^verbatim>\<open>start\<close> returns normally
  after them unless \<^verbatim>\<open>stop\<close> raises.
\<close>

definition start ::
  "ppath \<Rightarrow> run_env \<Rightarrow> screenshot_pipeline \<Rightarrow> ((exn + unit) \<times> screenshot_pipeline) option" where
  "start base_dir env p =
     (case start_body base_dir env p of
        None \<Rightarrow> None
      | Some (r, p1) \<Rightarrow>
          (case (case r of
                   Inr u \<Rightarrow> (Inr u, p1)
                 | Inl ex \<Rightarrow>
                     (if ex = KeyboardInterrupt
                      then (Inr (), plog INFO ''Pipeline interrupted by user'' p1)
                      else if is_Exception ex
                      then (Inr (), plog ERROR (''Pipeline error: '' @ exn_str ex) p1)
                      else (Inl ex, p1)))
           of (r2, p2) \<Rightarrow>
             (case stop (shutdown_r env) (browser_close_r env) p2 of
                (Inl ex, p3) \<Rightarrow> Some (Inl ex, p3)
              | (Inr _, p3) \<Rightarrow> Some (r2, p3))))"

subsection \<open>The entry point\<close>

text \<open>
  \<^verbatim>\<open>main\<close> builds the pipeline and awaits \<^verbatim>\<open>start\<close>. The block under
  \<^verbatim>\<open>__main__\<close> gives the process its exit status: 0 when \<^verbatim>\<open>main\<close> returns and after
  the handler of \<^verbatim>\<open>KeyboardInterrupt\<close>, 1 through \<^verbatim>\<open>sys.exit(1)\<close> after the handler
  of \<^verbatim>\<open>Exception\<close>. The second component is what the block prints.
\<close>

definition main :: "ppath \<Rightarrow> run_env \<Rightarrow> ((exn + unit) \<times> screenshot_pipeline) option" where
  "main base_dir env = start base_dir env new_pipeline"

definition run_main :: "ppath \<Rightarrow> run_env \<Rightarrow> (nat \<times> string list) option" where
  "run_main base_dir env =
     (case main base_dir env of
        None \<Rightarrow> None
      | Some (Inr _, p) \<Rightarrow> Some (0, [])
      | Some (Inl ex, p) \<Rightarrow>
          (if ex = KeyboardInterrupt then Some (0, [CHR 0x0A # ''Pipeline stopped by user''])
           else Some (1, [''Pipeline failed: '' @ exn_str ex])))"

subsection \<open>Runs in flight\<close>

text \<open>
  Two things start a run of the job. The scheduler starts one on a tick of the interval
  trigger unless the job already has \<^verbatim>\<open>max_instances\<close> running instances, in which case
  the tick is skipped; it counts the runs it started itself. \<^verbatim>\<open>start\<close> starts the
  initial run by awaiting the job directly, after the scheduler has been started; that
  run does not pass through the scheduler. While a run is suspended in an awaited call
  the event loop goes on serving the scheduler.
\<close>

record flight =
  instances :: nat
  initial_run :: bool
  skipped :: nat

datatype event = Initial_Start | Initial_Done | Tick | Job_Done

definition flight0 :: flight where
  "flight0 = \<lparr>instances = 0, initial_run = False, skipped = 0\<rparr>"

fun flight_step :: "flight \<Rightarrow> event \<Rightarrow> flight" where
  "flight_step f Initial_Start = f\<lparr>initial_run := True\<rparr>"
| "flight_step f Initial_Done = f\<lparr>initial_run := False\<rparr>"
| "flight_step f Tick =
     (if instances f < MAX_INSTANCES then f\<lparr>instances := instances f + 1\<rparr>
      else f\<lparr>skipped := skipped f + 1\<rparr>)"
| "flight_step f Job_Done = f\<lparr>instances := instances f - 1\<rparr>"

definition in_flight :: "flight \<Rightarrow> nat" where
  "in_flight f = instances f + (if initial_run f then 1 else 0)"

section \<open>Auxiliary notions and example inputs\<close>

text \<open>
  Of the calls in the \<^verbatim>\<open>try\<close> block of \<^verbatim>\<open>capture_screenshot\<close>, four leave the block
  when they raise: the creation of the page, the viewport size, the navigation and the
  screenshot. \<open>fatal_failure\<close> is the message of the first of them that fails. The load
  wait and the chart configuration have handlers of their own.
\<close>

definition fatal_failure :: "page_env \<Rightarrow> string option" where
  "fatal_failure e =
     (case new_page_r e of Fail m \<Rightarrow> Some m | Ok \<Rightarrow>
     (case viewport_r e of Fail m \<Rightarrow> Some m | Ok \<Rightarrow>
     (case goto_r e of Fail m \<Rightarrow> Some m | Ok \<Rightarrow>
     (case screenshot_r e of Fail m \<Rightarrow> Some m | Ok \<Rightarrow> None))))"

definition new_page_calls :: "tv_scraper \<Rightarrow> nat" where
  "new_page_calls s = length (filter (\<lambda>c. c = NewPage) (calls s))"

definition example_base :: ppath where
  "example_base = \<lparr>root = ''/'', parts = [''app'']\<rparr>"

definition example_time :: datetime where
  "example_time =
     \<lparr>year = 2024, month = 1, day = 2, hour = 3, minute = 4, second = 5, microsecond = 678\<rparr>"

definition ok_env :: page_env where
  "ok_env =
     \<lparr>new_page_r = Ok, viewport_r = Ok, goto_r = Ok, selector_r = Ok, evaluate_r = Ok,
      screenshot_r = Ok, close_r = Ok, now_r = example_time\<rparr>"

definition live_scraper :: tv_scraper where
  "live_scraper = new_scraper\<lparr>browser := Some BrowserHandle\<rparr>"

definition launch_fails :: run_env where
  "launch_fails =
     \<lparr>playwright_r = Ok, launch_r = Fail ''Executable does not exist'', add_job_r = Ok,
      scheduler_start_r = Ok, initial_env = (\<lambda>symbol. ok_env), shutdown_signal = Some (0, 15),
      shutdown_r = Ok, browser_close_r = Ok\<rparr>"

text \<open>
  What one turn of the aggregator's loop stores for a symbol and the state it leaves:
  the value \<^verbatim>\<open>capture_screenshot\<close> returned or, when it raised, \<^verbatim>\<open>None\<close> after the
  error has been logged.
\<close>

definition item_outcome ::
  "ppath \<Rightarrow> page_env \<Rightarrow> string \<Rightarrow> string \<Rightarrow> tv_scraper \<Rightarrow> string option \<times> tv_scraper" where
  "item_outcome base_dir e symbol url s =
     (case capture_screenshot base_dir e symbol url s of
        (Inr filepath, s1) \<Rightarrow> (filepath, s1)
      | (Inl ex, s1) \<Rightarrow>
          (None, log_msg ERROR (''Error capturing '' @ symbol @ '': '' @ exn_str ex) s1))"

definition goto_fails :: page_env where
  "goto_fails = ok_env\<lparr>goto_r := Fail ''Timeout 30000ms exceeded''\<rparr>"

definition close_fails :: page_env where
  "close_fails = ok_env\<lparr>close_r := Fail ''Connection closed''\<rparr>"

definition mixed_env :: "string \<Rightarrow> page_env" where
  "mixed_env symbol =
     (if symbol = ''ETH'' then goto_fails else if symbol = ''SOL'' then close_fails else ok_env)"

text \<open>
  What the aggregator stores for a symbol when the browser is live: the path when no
  fatal step fails and the page closes, \<^verbatim>\<open>None\<close> otherwise.
\<close>

definition expected_outcome :: "ppath \<Rightarrow> page_env \<Rightarrow> string \<Rightarrow> string option" where
  "expected_outcome base_dir e symbol =
     (if fatal_failure e = None \<and> close_r e = Ok
      then Some (path_str (screenshot_filepath base_dir e symbol))
      else None)"

definition btc_close_fails :: "string \<Rightarrow> page_env" where
  "btc_close_fails symbol = (if symbol = ''BTC'' then close_fails else ok_env)"

text \<open>
  The line the aggregator's handler logs for an item of the table whose capture raised the
  initialization error.
\<close>

definition init_error_line :: "string \<times> string \<Rightarrow> level \<times> string" where
  "init_error_line item = (ERROR, ''Error capturing '' @ fst item @ '': '' @ exn_str init_error)"

section \<open>The try block, one capture and the loop: basic facts\<close>

lemmas step_defs = new_page_def page_screenshot_def page_close_def lib_call_def
  wait_for_chart_load_def configure_chart_view_def log_msg_def

lemma try_capture_result:
  "fst (snd (try_capture b e symbol url s)) =
     (case fatal_failure e of
        None \<Rightarrow> Inr (path_str (screenshot_filepath b e symbol))
      | Some m \<Rightarrow> Inl (LibraryError m))"
  by (cases "new_page_r e"; cases "viewport_r e"; cases "goto_r e"; cases "selector_r e";
      cases "evaluate_r e"; cases "screenshot_r e";
      simp add: try_capture_def fatal_failure_def step_defs Let_def)

lemma try_capture_page:
  "fst (try_capture b e symbol url s) =
     (case new_page_r e of Ok \<Rightarrow> Some (next_page s) | Fail m \<Rightarrow> None)"
  by (cases "new_page_r e"; cases "viewport_r e"; cases "goto_r e"; cases "selector_r e";
      cases "evaluate_r e"; cases "screenshot_r e";
      simp add: try_capture_def step_defs Let_def)

lemma try_capture_state:
  "browser (snd (snd (try_capture b e symbol url s))) = browser s
   \<and> next_page (snd (snd (try_capture b e symbol url s))) =
       (case new_page_r e of Ok \<Rightarrow> Suc (next_page s) | Fail m \<Rightarrow> next_page s)
   \<and> open_pages (snd (snd (try_capture b e symbol url s))) =
       (case new_page_r e of Ok \<Rightarrow> insert (next_page s) (open_pages s) | Fail m \<Rightarrow> open_pages s)
   \<and> new_page_calls (snd (snd (try_capture b e symbol url s))) = Suc (new_page_calls s)"
  by (cases "new_page_r e"; cases "viewport_r e"; cases "goto_r e"; cases "selector_r e";
      cases "evaluate_r e"; cases "screenshot_r e";
      simp add: try_capture_def step_defs Let_def new_page_calls_def)

text \<open>The three facts together, for a named result of the try block.\<close>

lemma try_capture_facts:
  assumes "try_capture b e symbol url s = (pg, r, s1)"
  shows "pg = (case new_page_r e of Ok \<Rightarrow> Some (next_page s) | Fail m \<Rightarrow> None)"
    and "r = (case fatal_failure e of
                None \<Rightarrow> Inr (path_str (screenshot_filepath b e symbol))
              | Some m \<Rightarrow> Inl (LibraryError m))"
    and "browser s1 = browser s"
    and "open_pages s1 =
           (case new_page_r e of Ok \<Rightarrow> insert (next_page s) (open_pages s) | Fail m \<Rightarrow> open_pages s)"
    and "new_page_calls s1 = Suc (new_page_calls s)"
  using try_capture_page [of b e symbol url s] try_capture_result [of b e symbol url s]
    try_capture_state [of b e symbol url s] assms
  by simp_all

lemma fatal_failure_new_page: "new_page_r e = Fail m \<Longrightarrow> fatal_failure e = Some m"
  by (simp add: fatal_failure_def)

lemma capture_screenshot_live:
  assumes "browser s \<noteq> None" and "try_capture b e symbol url s = (pg, r, s1)"
  shows "capture_screenshot b e symbol url s =
     (case (case r of
              Inr filepath \<Rightarrow> (Inr (Some filepath), s1)
            | Inl ex \<Rightarrow>
                (if is_Exception ex
                 then (Inr None,
                       log_msg ERROR (''Failed to capture screenshot for '' @ symbol
                                      @ '': '' @ exn_str ex) s1)
                 else (Inl ex, s1)))
      of (r2, s2) \<Rightarrow>
        (case pg of
           None \<Rightarrow> (r2, s2)
         | Some p \<Rightarrow>
             (case page_close (close_r e) p s2 of
                (Inl ex, s3) \<Rightarrow> (Inl ex, s3)
              | (Inr _, s3) \<Rightarrow> (r2, s3))))"
  using assms by (cases "browser s") (simp_all add: capture_screenshot_def)

lemma capture_screenshot_result:
  assumes live: "browser s \<noteq> None"
  shows "fst (capture_screenshot b e symbol url s) =
     (case new_page_r e of
        Fail m \<Rightarrow> Inr None
      | Ok \<Rightarrow>
          (case close_r e of
             Fail m \<Rightarrow> Inl (LibraryError m)
           | Ok \<Rightarrow>
               (case fatal_failure e of
                  None \<Rightarrow> Inr (Some (path_str (screenshot_filepath b e symbol)))
                | Some m \<Rightarrow> Inr None)))"
proof -
  obtain pg r s1 where tc: "try_capture b e symbol url s = (pg, r, s1)"
    by (cases "try_capture b e symbol url s") auto
  note f = try_capture_facts [OF tc]
  show ?thesis
    using live f(1,2)
    by (cases "new_page_r e"; cases "close_r e"; cases "fatal_failure e")
       (simp_all add: capture_screenshot_live [OF live tc] page_close_def lib_call_def log_msg_def
          fatal_failure_new_page)
qed

lemma capture_screenshot_logs_failure:
  assumes live: "browser s \<noteq> None" and ff: "fatal_failure e = Some m"
  shows "(ERROR, ''Failed to capture screenshot for '' @ symbol @ '': '' @ m)
           \<in> set (logs (snd (capture_screenshot b e symbol url s)))"
proof -
  obtain pg r s1 where tc: "try_capture b e symbol url s = (pg, r, s1)"
    by (cases "try_capture b e symbol url s") auto
  note f = try_capture_facts [OF tc]
  show ?thesis
    using live f(1,2) ff
    by (cases "new_page_r e"; cases "close_r e")
       (simp_all add: capture_screenshot_live [OF live tc] page_close_def lib_call_def log_msg_def)
qed

lemma capture_screenshot_state:
  assumes live: "browser s \<noteq> None"
  shows "browser (snd (capture_screenshot b e symbol url s)) = browser s"
    and "new_page_calls (snd (capture_screenshot b e symbol url s)) = Suc (new_page_calls s)"
proof -
  obtain pg r s1 where tc: "try_capture b e symbol url s = (pg, r, s1)"
    by (cases "try_capture b e symbol url s") auto
  note f = try_capture_facts [OF tc]
  show "browser (snd (capture_screenshot b e symbol url s)) = browser s"
    using live f(1,2,3)
    by (cases "new_page_r e"; cases "close_r e"; cases "fatal_failure e")
       (simp_all add: capture_screenshot_live [OF live tc] page_close_def lib_call_def log_msg_def)
  show "new_page_calls (snd (capture_screenshot b e symbol url s)) = Suc (new_page_calls s)"
    using live f(1,2,5)
    by (cases "new_page_r e"; cases "close_r e"; cases "fatal_failure e")
       (simp_all add: capture_screenshot_live [OF live tc] page_close_def lib_call_def log_msg_def
          new_page_calls_def)
qed


lemma capture_screenshot_raises_Exception:
  "fst (capture_screenshot b e symbol url s) = Inl ex \<Longrightarrow> is_Exception ex"
proof (cases "browser s = None")
  case True
  assume "fst (capture_screenshot b e symbol url s) = Inl ex"
  with True show ?thesis by (auto simp: capture_screenshot_def init_error_def)
next
  case False
  assume "fst (capture_screenshot b e symbol url s) = Inl ex"
  with capture_screenshot_result [OF False, of b e symbol url] show ?thesis
    by (cases "new_page_r e"; cases "close_r e"; cases "fatal_failure e") auto
qed


lemma capture_all_items_Cons:
  "capture_all_items b env ((symbol, url) # rest) results s =
     capture_all_items b env rest
       (AList.update symbol (fst (item_outcome b (env symbol) symbol url s)) results)
       (snd (item_outcome b (env symbol) symbol url s))"
proof (cases "capture_screenshot b (env symbol) symbol url s")
  case (Pair r s1)
  show ?thesis
  proof (cases r)
    case (Inl ex)
    with Pair capture_screenshot_raises_Exception [of b "env symbol" symbol url s ex]
    show ?thesis by (simp add: item_outcome_def)
  next
    case (Inr fp)
    with Pair show ?thesis by (simp add: item_outcome_def)
  qed
qed

lemma item_outcome_browser:
  "browser (snd (item_outcome b e symbol url s)) = browser s"
proof (cases "browser s = None")
  case True
  then show ?thesis by (simp add: item_outcome_def capture_screenshot_def log_msg_def)
next
  case False
  from capture_screenshot_state(1) [OF False, of b e symbol url] show ?thesis
    by (cases "capture_screenshot b e symbol url s"; cases "fst (capture_screenshot b e symbol url s)")
       (simp_all add: item_outcome_def log_msg_def)
qed

lemma item_outcome_new_page_calls:
  assumes "browser s \<noteq> None"
  shows "new_page_calls (snd (item_outcome b e symbol url s)) = Suc (new_page_calls s)"
  using capture_screenshot_state(2) [OF assms, of b e symbol url]
  by (cases "capture_screenshot b e symbol url s"; cases "fst (capture_screenshot b e symbol url s)")
     (simp_all add: item_outcome_def log_msg_def new_page_calls_def)

lemma item_outcome_no_browser:
  assumes "browser s = None"
  shows "fst (item_outcome b e symbol url s) = None"
    and "calls (snd (item_outcome b e symbol url s)) = calls s"
    and "open_pages (snd (item_outcome b e symbol url s)) = open_pages s"
    and "files (snd (item_outcome b e symbol url s)) = files s"
  using assms by (simp_all add: item_outcome_def capture_screenshot_def log_msg_def)

lemma capture_all_items_append:
  "capture_all_items b env (xs @ ys) results s =
     (case capture_all_items b env xs results s of
        (Inr res, s1) \<Rightarrow> capture_all_items b env ys res s1
      | (Inl ex, s1) \<Rightarrow> (Inl ex, s1))"
proof (induction xs arbitrary: results s)
  case Nil
  show ?case by simp
next
  case (Cons x xs)
  obtain symbol url where x: "x = (symbol, url)" by (cases x)
  show ?case
    by (simp only: x append_Cons capture_all_items_Cons Cons.IH)
qed

lemma capture_all_items_keys:
  "\<exists>res s'. capture_all_items b env items results s = (Inr res, s')
      \<and> fst ` set res = fst ` set results \<union> fst ` set items
      \<and> (distinct (map fst results) \<longrightarrow> distinct (map fst res))
      \<and> (\<forall>k. k \<notin> fst ` set items \<longrightarrow> map_of res k = map_of results k)
      \<and> browser s' = browser s"
proof (induction items arbitrary: results s)
  case Nil
  show ?case by simp
next
  case (Cons x xs)
  obtain symbol url where x: "x = (symbol, url)" by (cases x)
  let ?v = "fst (item_outcome b (env symbol) symbol url s)"
  let ?s = "snd (item_outcome b (env symbol) symbol url s)"
  from Cons.IH [of "AList.update symbol ?v results" ?s]
  obtain res s' where
    run: "capture_all_items b env xs (AList.update symbol ?v results) ?s = (Inr res, s')"
    and keys: "fst ` set res = fst ` set (AList.update symbol ?v results) \<union> fst ` set xs"
    and dist: "distinct (map fst (AList.update symbol ?v results)) \<longrightarrow> distinct (map fst res)"
    and frame: "\<forall>k. k \<notin> fst ` set xs \<longrightarrow> map_of res k = map_of (AList.update symbol ?v results) k"
    and br: "browser s' = browser ?s"
    by blast
  have "capture_all_items b env (x # xs) results s = (Inr res, s')"
    by (simp only: x capture_all_items_Cons run)
  moreover have "fst ` set res = fst ` set results \<union> fst ` set (x # xs)"
    using keys by (auto simp: x dom_update)
  moreover have "distinct (map fst results) \<longrightarrow> distinct (map fst res)"
    using dist by (simp add: distinct_update)
  moreover have "\<forall>k. k \<notin> fst ` set (x # xs) \<longrightarrow> map_of res k = map_of results k"
    using frame by (auto simp: x update_conv')
  moreover have "browser s' = browser s"
    using br by (simp add: item_outcome_browser)
  ultimately show ?case by blast
qed

lemma capture_all_items_order:
  assumes "distinct (map fst items)" and "fst ` set results \<inter> fst ` set items = {}"
  shows "map fst (case fst (capture_all_items b env items results s) of Inr res \<Rightarrow> res | Inl ex \<Rightarrow> [])
           = map fst results @ map fst items"
  using assms
proof (induction items arbitrary: results s)
  case Nil
  show ?case by simp
next
  case (Cons x xs)
  obtain symbol url where x: "x = (symbol, url)" by (cases x)
  let ?v = "fst (item_outcome b (env symbol) symbol url s)"
  let ?s = "snd (item_outcome b (env symbol) symbol url s)"
  have fresh: "symbol \<notin> fst ` set results" using Cons.prems(2) by (auto simp: x)
  have d: "distinct (map fst xs)" using Cons.prems(1) by simp
  have disj: "fst ` set (AList.update symbol ?v results) \<inter> fst ` set xs = {}"
    using Cons.prems by (auto simp: x dom_update)
  have "map fst (AList.update symbol ?v results) = map fst results @ [symbol]"
    using fresh by (simp add: update_keys)
  with Cons.IH [OF d disj, of ?s] show ?case
    by (simp only: x capture_all_items_Cons) simp
qed

lemma capture_all_items_new_page_calls:
  assumes "browser s \<noteq> None"
  shows "new_page_calls (snd (capture_all_items b env items results s))
           = new_page_calls s + length items"
  using assms
proof (induction items arbitrary: results s)
  case Nil
  show ?case by simp
next
  case (Cons x xs)
  obtain symbol url where x: "x = (symbol, url)" by (cases x)
  let ?s = "snd (item_outcome b (env symbol) symbol url s)"
  have live: "browser ?s \<noteq> None" using Cons.prems by (simp add: item_outcome_browser)
  from Cons.IH [OF live] item_outcome_new_page_calls [OF Cons.prems, of b "env symbol" symbol url]
  show ?case by (simp only: x capture_all_items_Cons) simp
qed

lemma update_None_values:
  "snd ` set (AList.update k None results) \<subseteq> snd ` set results \<union> {None}"
  by (induction results) auto

lemma capture_all_items_no_browser:
  assumes "browser s = None"
  shows "\<exists>res s'. capture_all_items b env items results s = (Inr res, s')
           \<and> snd ` set res \<subseteq> snd ` set results \<union> {None}
           \<and> calls s' = calls s \<and> open_pages s' = open_pages s \<and> files s' = files s"
  using assms
proof (induction items arbitrary: results s)
  case Nil
  show ?case by auto
next
  case (Cons x xs)
  obtain symbol url where x: "x = (symbol, url)" by (cases x)
  let ?s = "snd (item_outcome b (env symbol) symbol url s)"
  note io = item_outcome_no_browser [OF Cons.prems, of b "env symbol" symbol url]
  have nb: "browser ?s = None" using Cons.prems by (simp add: item_outcome_browser)
  from Cons.IH [OF nb, of "AList.update symbol None results"]
  obtain res s' where
    run: "capture_all_items b env xs (AList.update symbol None results) ?s = (Inr res, s')"
    and vals: "snd ` set res \<subseteq> snd ` set (AList.update symbol None results) \<union> {None}"
    and same: "calls s' = calls ?s" "open_pages s' = open_pages ?s" "files s' = files ?s"
    by blast
  have r1: "capture_all_items b env (x # xs) results s = (Inr res, s')"
    by (simp only: x capture_all_items_Cons io(1) run)
  have r2: "snd ` set res \<subseteq> snd ` set results \<union> {None}"
  proof -
    have "snd ` set (AList.update symbol None results) \<union> {None} \<subseteq> snd ` set results \<union> {None}"
      using update_None_values [of symbol results] by simp
    with vals show ?thesis by (rule subset_trans)
  qed
  have r3: "calls s' = calls s" "open_pages s' = open_pages s" "files s' = files s"
    using same io(2,3,4) by simp_all
  show ?case
    by (intro exI conjI) (rule r1, rule r2, rule r3(1), rule r3(2), rule r3(3))
qed

section \<open>Paths and timestamps: basic facts\<close>

lemma zero_pad_0_0: "zero_pad 0 0 = []"
  by (subst zero_pad.simps(1)) simp

lemma zero_pad_2:
  assumes "n < 100"
  shows "zero_pad 2 n = [digit_char (n div 10), digit_char n]"
proof -
  have z: "n div 10 div 10 = 0" using assms by (simp add: div_mult2_eq [symmetric])
  have "zero_pad (Suc (Suc 0)) n = [digit_char (n div 10), digit_char n]"
    by (simp add: z zero_pad_0_0)
  then show ?thesis by (simp add: numeral_2_eq_2)
qed

lemma zero_pad_4:
  assumes "n < 10000"
  shows "zero_pad 4 n =
     [digit_char (n div 1000), digit_char (n div 100), digit_char (n div 10), digit_char n]"
proof -
  have d2: "n div 10 div 10 = n div 100" by (simp add: div_mult2_eq [symmetric])
  have d3: "n div 100 div 10 = n div 1000" by (simp add: div_mult2_eq [symmetric])
  have z: "n div 1000 div 10 = 0" using assms by (simp add: div_mult2_eq [symmetric])
  have four: "(4::nat) = Suc (Suc (Suc (Suc 0)))" by simp
  have "zero_pad (Suc (Suc (Suc (Suc 0)))) n =
     [digit_char (n div 1000), digit_char (n div 100), digit_char (n div 10), digit_char n]"
    by (simp add: d2 d3 z zero_pad_0_0)
  then show ?thesis by (simp only: four)
qed

lemma strftime_TIMESTAMP_FORMAT:
  "strftime TIMESTAMP_FORMAT t =
     zero_pad 4 (year t) @ zero_pad 2 (month t) @ zero_pad 2 (day t) @ ''_''
     @ zero_pad 2 (hour t) @ zero_pad 2 (minute t) @ zero_pad 2 (second t)"
  by (simp add: TIMESTAMP_FORMAT_def)

lemma example_timestamp: "strftime TIMESTAMP_FORMAT example_time = ''20240102_030405''"
  by (simp add: strftime_TIMESTAMP_FORMAT zero_pad_2 zero_pad_4 example_time_def digit_char_def)

lemma digit_char_not_slash: "digit_char n \<noteq> CHR ''/''"
proof -
  have "n mod 10 < length ''0123456789''" by simp
  then have "digit_char n \<in> set ''0123456789''"
    unfolding digit_char_def by (rule nth_mem)
  then show ?thesis by auto
qed

lemma zero_pad_no_slash: "CHR ''/'' \<notin> set (zero_pad w n)"
proof (induction w n rule: zero_pad.induct)
  case (1 n)
  show ?case
  proof (cases "n = 0")
    case True
    then show ?thesis by (simp add: zero_pad_0_0)
  next
    case False
    with 1 digit_char_not_slash [of n] show ?thesis
      by (subst zero_pad.simps(1)) auto
  qed
next
  case (2 w n)
  with digit_char_not_slash [of n] show ?case by auto
qed

lemma split_on_no_sep: "c \<notin> set s \<Longrightarrow> split_on c s = [s]"
  by (induction s) auto

lemma path_root_relative: "CHR ''/'' \<notin> set s \<Longrightarrow> path_root s = ''''"
  by (cases s) (auto simp: path_root_def)

lemma joinpath_simple:
  assumes "CHR ''/'' \<notin> set s" and "s \<noteq> ''''" and "s \<noteq> ''.''"
  shows "joinpath p s = \<lparr>root = root p, parts = parts p @ [s]\<rparr>"
  using assms by (simp add: joinpath_def parse_path_def Let_def split_on_no_sep path_root_relative)

lemma SCREENSHOTS_DIR_parts:
  "SCREENSHOTS_DIR b = \<lparr>root = root b, parts = parts b @ [''screenshots'']\<rparr>"
  unfolding SCREENSHOTS_DIR_def by (rule joinpath_simple) simp_all

lemma intercalate_snoc:
  "ps \<noteq> [] \<Longrightarrow> intercalate sep (ps @ [f]) = intercalate sep ps @ sep @ f"
  by (induction sep ps rule: intercalate.induct) auto

lemma path_str_snoc:
  "parts p \<noteq> [] \<Longrightarrow>
     path_str \<lparr>root = root p, parts = parts p @ [f]\<rparr> = path_str p @ ''/'' @ f"
  by (simp add: path_str_def intercalate_snoc)

lemma screenshot_filename_no_slash:
  "CHR ''/'' \<notin> set symbol \<Longrightarrow> CHR ''/'' \<notin> set (screenshot_filename e symbol)"
  by (simp add: screenshot_filename_def strftime_TIMESTAMP_FORMAT zero_pad_no_slash)

lemma screenshot_filename_proper:
  "screenshot_filename e symbol \<noteq> '''' \<and> screenshot_filename e symbol \<noteq> ''.''"
proof -
  have "length (screenshot_filename e symbol) \<ge> 5"
    by (simp add: screenshot_filename_def)
  then show ?thesis by auto
qed

lemma screenshot_filepath_simple:
  assumes "CHR ''/'' \<notin> set symbol"
  shows "screenshot_filepath b e symbol =
           \<lparr>root = root b, parts = parts b @ [''screenshots'', screenshot_filename e symbol]\<rparr>"
  using joinpath_simple [OF screenshot_filename_no_slash [OF assms, of e], of "SCREENSHOTS_DIR b"]
    screenshot_filename_proper [of e symbol]
  by (simp add: screenshot_filepath_def SCREENSHOTS_DIR_parts)

section \<open>The example inputs evaluated\<close>

lemma example_filepath:
  "now_r e = example_time \<Longrightarrow>
   path_str (screenshot_filepath example_base e ''BTC'') = ''/app/screenshots/BTC_20240102_030405.png''"
  by (simp add: screenshot_filepath_simple screenshot_filename_def example_timestamp
      example_base_def path_str_def)

lemma example_envs:
  "new_page_r ok_env = Ok" "close_r ok_env = Ok" "fatal_failure ok_env = None"
  "now_r ok_env = example_time"
  "new_page_r goto_fails = Ok" "close_r goto_fails = Ok"
  "fatal_failure goto_fails = Some ''Timeout 30000ms exceeded''"
  "now_r goto_fails = example_time"
  "new_page_r close_fails = Ok" "close_r close_fails = Fail ''Connection closed''"
  "fatal_failure close_fails = None" "now_r close_fails = example_time"
  by (simp_all add: ok_env_def goto_fails_def close_fails_def fatal_failure_def)

lemma live_scraper_fields:
  "browser live_scraper = Some BrowserHandle" "next_page live_scraper = 0"
  "open_pages live_scraper = {}" "calls live_scraper = []" "logs live_scraper = []"
  "files live_scraper = {}"
  by (simp_all add: live_scraper_def new_scraper_def)

section \<open>Logs and stored values of the loop\<close>

lemma try_capture_logs:
  "\<exists>xs. logs (snd (snd (try_capture b e symbol url s))) = logs s @ xs"
  by (cases "new_page_r e"; cases "viewport_r e"; cases "goto_r e"; cases "selector_r e";
      cases "evaluate_r e"; cases "screenshot_r e";
      simp add: try_capture_def step_defs Let_def)

lemma capture_screenshot_logs:
  "\<exists>xs. logs (snd (capture_screenshot b e symbol url s)) = logs s @ xs"
proof (cases "browser s = None")
  case True
  then show ?thesis by (simp add: capture_screenshot_def)
next
  case False
  obtain pg r s1 where tc: "try_capture b e symbol url s = (pg, r, s1)"
    by (cases "try_capture b e symbol url s") auto
  from try_capture_logs [of b e symbol url s] tc
  obtain xs where xs: "logs s1 = logs s @ xs" by auto
  note f = try_capture_facts [OF tc]
  show ?thesis
    using f(1,2) xs
    by (cases "new_page_r e"; cases "close_r e"; cases "fatal_failure e")
       (simp_all add: capture_screenshot_live [OF False tc] page_close_def lib_call_def log_msg_def)
qed

lemma item_outcome_logs:
  "\<exists>xs. logs (snd (item_outcome b e symbol url s)) = logs s @ xs"
  using capture_screenshot_logs [of b e symbol url s]
  by (cases "capture_screenshot b e symbol url s"; cases "fst (capture_screenshot b e symbol url s)")
     (auto simp: item_outcome_def log_msg_def)

lemma capture_all_items_logs:
  "\<exists>xs. logs (snd (capture_all_items b env items results s)) = logs s @ xs"
proof (induction items arbitrary: results s)
  case Nil
  show ?case by simp
next
  case (Cons x xs)
  obtain symbol url where x: "x = (symbol, url)" by (cases x)
  let ?v = "fst (item_outcome b (env symbol) symbol url s)"
  let ?s = "snd (item_outcome b (env symbol) symbol url s)"
  from item_outcome_logs [of b "env symbol" symbol url s]
  obtain ys where ys: "logs ?s = logs s @ ys" by auto
  from Cons.IH [of "AList.update symbol ?v results" ?s]
  obtain zs where "logs (snd (capture_all_items b env xs (AList.update symbol ?v results) ?s))
      = logs ?s @ zs" by auto
  with ys have "logs (snd (capture_all_items b env (x # xs) results s)) = logs s @ (ys @ zs)"
    by (simp only: x capture_all_items_Cons) simp
  then show ?case by blast
qed

lemma item_outcome_value:
  assumes "browser s \<noteq> None"
  shows "fst (item_outcome b e symbol url s) = expected_outcome b e symbol"
  using capture_screenshot_result [OF assms, of b e symbol url]
  by (cases "capture_screenshot b e symbol url s"; cases "new_page_r e"; cases "close_r e";
      cases "fatal_failure e")
     (auto simp: item_outcome_def expected_outcome_def fatal_failure_new_page)

lemma item_outcome_raise:
  assumes "fst (capture_screenshot b e symbol url s) = Inl ex"
  shows "item_outcome b e symbol url s =
           (None, log_msg ERROR (''Error capturing '' @ symbol @ '': '' @ exn_str ex)
                    (snd (capture_screenshot b e symbol url s)))"
  using assms by (cases "capture_screenshot b e symbol url s") (simp add: item_outcome_def)

lemma capture_all_items_values:
  assumes "browser s \<noteq> None" and "distinct (map fst items)" and "(k, u) \<in> set items"
  shows "map_of (case fst (capture_all_items b env items results s) of Inr res \<Rightarrow> res | Inl ex \<Rightarrow> [])
           k = Some (expected_outcome b (env k) k)"
  using assms
proof (induction items arbitrary: results s)
  case Nil
  then show ?case by simp
next
  case (Cons x xs)
  obtain symbol url where x: "x = (symbol, url)" by (cases x)
  let ?v = "fst (item_outcome b (env symbol) symbol url s)"
  let ?s = "snd (item_outcome b (env symbol) symbol url s)"
  have live: "browser ?s \<noteq> None" using Cons.prems(1) by (simp add: item_outcome_browser)
  have d: "distinct (map fst xs)" and fresh: "symbol \<notin> fst ` set xs"
    using Cons.prems(2) by (simp_all add: x)
  from capture_all_items_keys [of b env xs "AList.update symbol ?v results" ?s]
  obtain res s' where
    run: "capture_all_items b env xs (AList.update symbol ?v results) ?s = (Inr res, s')"
    and frame: "\<forall>k. k \<notin> fst ` set xs \<longrightarrow> map_of res k = map_of (AList.update symbol ?v results) k"
    by blast
  show ?case
  proof (cases "(k, u) \<in> set xs")
    case True
    from Cons.IH [OF live d True, of "AList.update symbol ?v results"]
    show ?thesis by (simp only: x capture_all_items_Cons)
  next
    case False
    with Cons.prems(3) have k: "k = symbol" by (simp add: x)
    have m: "map_of res symbol = Some ?v"
      using frame fresh by (simp add: update_conv')
    have r: "fst (capture_all_items b env (x # xs) results s) = Inr res"
      by (simp only: x capture_all_items_Cons run fst_conv)
    show ?thesis
      using m item_outcome_value [OF Cons.prems(1), of b "env symbol" symbol url]
      by (simp add: r k)
  qed
qed

lemma CRYPTO_SYMBOLS_keys: "map fst CRYPTO_SYMBOLS = [''BTC'', ''ETH'', ''SOL'']"
  by (simp add: CRYPTO_SYMBOLS_def)

lemma all_none_items:
  assumes "map fst res = [a, b, c]" and "snd ` set res \<subseteq> {None}"
  shows "res = [(a, None), (b, None), (c, None)]"
proof -
  from assms(1) obtain va vb vc where r: "res = [(a, va), (b, vb), (c, vc)]"
    by (auto simp: map_eq_Cons_conv)
  with assms(2) show ?thesis by auto
qed

lemma example_filename:
  "now_r e = example_time \<Longrightarrow>
   screenshot_filename e symbol = symbol @ ''_20240102_030405.png''"
  by (simp add: screenshot_filename_def example_timestamp)

lemma example_absolute_filepath:
  "screenshot_filepath example_base ok_env ''/tmp/x''
     = \<lparr>root = ''/'', parts = [''tmp'', ''x_20240102_030405.png'']\<rparr>"
  by (simp add: screenshot_filepath_def example_filename example_envs joinpath_def parse_path_def
      path_root_def Let_def)

lemma example_nested_filepath:
  "screenshot_filepath example_base ok_env ''BTC/USDT''
     = \<lparr>root = ''/'', parts = [''app'', ''screenshots'', ''BTC'', ''USDT_20240102_030405.png'']\<rparr>"
  by (simp add: screenshot_filepath_def example_filename example_envs joinpath_def parse_path_def
      path_root_def Let_def SCREENSHOTS_DIR_parts example_base_def)

lemma path_name_last: "ps \<noteq> [] \<Longrightarrow> path_name \<lparr>root = r, parts = ps\<rparr> = last ps"
  by (cases ps) (simp_all add: path_name_def)

lemma start_browser_failure:
  assumes "browser s = None" and "fst (start_browser pr lr s) \<noteq> Inr ()"
  shows "browser (snd (start_browser pr lr s)) = None"
    and "\<exists>m. fst (start_browser pr lr s) = Inl (LibraryError m)"
  using assms
  by (cases pr; cases lr; simp add: start_browser_def lib_call_def log_msg_def)+

lemma start_swallows_browser_failure:
  assumes "playwright_r env = Fail m \<or> (playwright_r env = Ok \<and> launch_r env = Fail m)"
  shows "start base_dir env new_pipeline =
           Some (Inr (),
             new_pipeline
               \<lparr>scraper := snd (start_browser (playwright_r env) (launch_r env) new_scraper),
                pipeline_logs :=
                  [(INFO, ''Starting TradingView Screenshot Pipeline...''),
                   (ERROR, ''Pipeline error: '' @ m),
                   (INFO, ''Stopping pipeline...''),
                   (INFO, ''Pipeline stopped successfully'')]\<rparr>)"
    and "run_main base_dir env = Some (0, [])"
  using assms
  by (auto simp: run_main_def main_def start_def start_body_def start_browser_def lib_call_def
      log_msg_def stop_def close_browser_def plog_def new_pipeline_def new_scraper_def Let_def)

lemma scheduled_runs_never_overlap:
  "instances f \<le> MAX_INSTANCES \<Longrightarrow> instances (foldl flight_step f events) \<le> MAX_INSTANCES"
proof (induction events arbitrary: f)
  case Nil
  then show ?case by simp
next
  case (Cons ev events)
  have "instances (flight_step f ev) \<le> MAX_INSTANCES"
    using Cons.prems by (cases ev) (simp_all add: MAX_INSTANCES_def)
  from Cons.IH [OF this] show ?case by simp
qed

section \<open>The loop without a browser\<close>

lemma capture_screenshot_no_browser:
  "browser s = None \<Longrightarrow> capture_screenshot b e symbol url s = (Inl init_error, s)"
  by (simp add: capture_screenshot_def)

lemma item_outcome_no_browser_state:
  "browser s = None \<Longrightarrow>
     item_outcome b e symbol url s = (None, s\<lparr>logs := logs s @ [init_error_line (symbol, url)]\<rparr>)"
  by (simp add: item_outcome_def capture_screenshot_def log_msg_def init_error_line_def)

lemma capture_all_items_no_browser_state:
  assumes "browser s = None"
  shows "snd (capture_all_items b env items results s)
           = s\<lparr>logs := logs s @ map init_error_line items\<rparr>"
  using assms
proof (induction items arbitrary: results s)
  case Nil
  show ?case by simp
next
  case (Cons x xs)
  obtain symbol url where x: "x = (symbol, url)" by (cases x)
  let ?s = "s\<lparr>logs := logs s @ [init_error_line (symbol, url)]\<rparr>"
  have io: "item_outcome b (env symbol) symbol url s = (None, ?s)"
    using item_outcome_no_browser_state [OF Cons.prems] .
  have nb: "browser ?s = None" using Cons.prems by simp
  have "snd (capture_all_items b env (x # xs) results s)
          = snd (capture_all_items b env xs (AList.update symbol None results) ?s)"
    by (simp only: x capture_all_items_Cons io fst_conv snd_conv)
  also have "\<dots> = ?s\<lparr>logs := logs ?s @ map init_error_line xs\<rparr>"
    using Cons.IH [OF nb] .
  also have "\<dots> = s\<lparr>logs := logs s @ map init_error_line (x # xs)\<rparr>"
    by (simp add: x)
  finally show ?case .
qed

lemma capture_all_items_browser:
  "browser (snd (capture_all_items b env items results s)) = browser s"
  using capture_all_items_keys [of b env items results s] by auto

section \<open>Properties of the capture routine\<close>

text \<open>
  Claim C5. \<^verbatim>\<open>capture_screenshot\<close> raises the initialization error exactly when
  \<^verbatim>\<open>self.browser\<close> is \<^verbatim>\<open>None\<close> at the time of the call. With a browser it never
  raises that error, whatever the browser replies.
\<close>

theorem capture_screenshot_init_error_iff:
  "(fst (capture_screenshot base_dir e symbol url s) = Inl init_error) = (browser s = None)"
  by (auto simp: capture_screenshot_def page_close_def lib_call_def init_error_def
      split: prod.splits sum.splits option.splits reply.splits if_splits)

theorem capture_screenshot_init_error_iff_witness:
  "fst (capture_screenshot example_base ok_env ''BTC'' ''url'' new_scraper) = Inl init_error
   \<and> fst (capture_screenshot example_base ok_env ''BTC'' ''url'' live_scraper) \<noteq> Inl init_error"
  using capture_screenshot_init_error_iff [of example_base ok_env "''BTC''" "''url''" new_scraper]
    capture_screenshot_init_error_iff [of example_base ok_env "''BTC''" "''url''" live_scraper]
  by (simp add: new_scraper_def live_scraper_def)




text \<open>
  Claim C6, as amended. With a live browser \<^verbatim>\<open>capture_screenshot\<close> returns the file
  path when the page creation, the viewport size, the navigation, the screenshot and the
  final close of the page all succeed. When one of the first four raises, the exception is
  logged at error level and \<^verbatim>\<open>None\<close> is returned, provided that the close of the page
  (when one was created) does not raise. An exception raised by the close of the page in
  the \<^verbatim>\<open>finally\<close> block leaves the routine in place of the pending return value.
\<close>

theorem capture_screenshot_outcome:
  assumes "browser s \<noteq> None"
  shows "fst (capture_screenshot base_dir e symbol url s) =
           (case new_page_r e of
              Fail m \<Rightarrow> Inr None
            | Ok \<Rightarrow>
                (case close_r e of
                   Fail m \<Rightarrow> Inl (LibraryError m)
                 | Ok \<Rightarrow>
                     (case fatal_failure e of
                        None \<Rightarrow> Inr (Some (path_str (screenshot_filepath base_dir e symbol)))
                      | Some m \<Rightarrow> Inr None)))
         \<and> (case fatal_failure e of
               None \<Rightarrow> True
             | Some m \<Rightarrow>
                 (ERROR, ''Failed to capture screenshot for '' @ symbol @ '': '' @ m)
                   \<in> set (logs (snd (capture_screenshot base_dir e symbol url s))))"
  using capture_screenshot_result [OF assms, of base_dir e symbol url]
    capture_screenshot_logs_failure [OF assms, of e _ symbol base_dir url]
  by (cases "fatal_failure e") simp_all

theorem capture_screenshot_outcome_witness:
  "browser live_scraper \<noteq> None
   \<and> fst (capture_screenshot example_base ok_env ''BTC'' ''url'' live_scraper)
       = Inr (Some ''/app/screenshots/BTC_20240102_030405.png'')
   \<and> fst (capture_screenshot example_base goto_fails ''BTC'' ''url'' live_scraper) = Inr None
   \<and> (ERROR, ''Failed to capture screenshot for BTC: Timeout 30000ms exceeded'')
       \<in> set (logs (snd (capture_screenshot example_base goto_fails ''BTC'' ''url'' live_scraper)))
   \<and> fst (capture_screenshot example_base close_fails ''BTC'' ''url'' live_scraper)
       = Inl (LibraryError ''Connection closed'')"
proof -
  have h: "browser live_scraper \<noteq> None"
    by (simp add: live_scraper_fields)
  from capture_screenshot_outcome [OF h, of example_base ok_env "''BTC''" "''url''"]
    capture_screenshot_outcome [OF h, of example_base goto_fails "''BTC''" "''url''"]
    capture_screenshot_outcome [OF h, of example_base close_fails "''BTC''" "''url''"]
    h
  show ?thesis by (simp add: example_envs example_filepath)
qed

text \<open>
  Claim C6 as it was stated fails where the close of the page raises: with every step of
  the capture successful the routine raises instead of returning the path, and after a
  failed navigation it raises instead of returning \<^verbatim>\<open>None\<close>.
\<close>

theorem capture_screenshot_close_failure_propagates:
  "browser live_scraper = Some BrowserHandle
   \<and> fatal_failure close_fails = None
   \<and> fst (capture_screenshot example_base close_fails ''BTC'' ''url'' live_scraper)
       = Inl (LibraryError ''Connection closed'')
   \<and> goto_r (goto_fails\<lparr>close_r := Fail ''Connection closed''\<rparr>) = Fail ''Timeout 30000ms exceeded''
   \<and> fst (capture_screenshot example_base (goto_fails\<lparr>close_r := Fail ''Connection closed''\<rparr>)
            ''BTC'' ''url'' live_scraper)
       = Inl (LibraryError ''Connection closed'')"
proof -
  have h: "browser live_scraper \<noteq> None"
    by (simp add: live_scraper_fields)
  show ?thesis
    using capture_screenshot_result [OF h, of example_base close_fails "''BTC''" "''url''"]
      capture_screenshot_result [OF h, of example_base
        "goto_fails\<lparr>close_r := Fail ''Connection closed''\<rparr>" "''BTC''" "''url''"]
    by (simp add: live_scraper_fields example_envs goto_fails_def ok_env_def)
qed

section \<open>Properties of the aggregator\<close>

text \<open>
  Claim C1. One run of the aggregator over any symbol table returns a mapping, whatever
  the browser replies during the captures: its keys are exactly the symbol names of the
  table and no key occurs twice. For the configured table the keys are BTC, ETH and SOL,
  in this order.
\<close>

theorem capture_all_screenshots_key_set:
  "(\<exists>res s'. capture_all_items base_dir env items [] s = (Inr res, s')
       \<and> fst ` set res = fst ` set items \<and> distinct (map fst res))
   \<and> (\<exists>res s'. capture_all_screenshots base_dir env s = (Inr res, s')
       \<and> map fst res = [''BTC'', ''ETH'', ''SOL''])"
proof
  from capture_all_items_keys [of base_dir env items "[]" s]
  show "\<exists>res s'. capture_all_items base_dir env items [] s = (Inr res, s')
       \<and> fst ` set res = fst ` set items \<and> distinct (map fst res)"
    by auto
next
  from capture_all_items_keys [of base_dir env CRYPTO_SYMBOLS "[]" s]
  obtain res s' where run: "capture_all_items base_dir env CRYPTO_SYMBOLS [] s = (Inr res, s')"
    by blast
  have "distinct (map fst CRYPTO_SYMBOLS)" by (simp add: CRYPTO_SYMBOLS_keys)
  from capture_all_items_order [OF this, of "[]" base_dir env s]
  have "map fst res = [''BTC'', ''ETH'', ''SOL'']"
    by (simp add: run CRYPTO_SYMBOLS_keys)
  with run show "\<exists>res s'. capture_all_screenshots base_dir env s = (Inr res, s')
       \<and> map fst res = [''BTC'', ''ETH'', ''SOL'']"
    by (simp add: capture_all_screenshots_def)
qed

theorem capture_all_screenshots_key_set_witness:
  "map fst (case fst (capture_all_screenshots example_base mixed_env live_scraper) of
              Inr res \<Rightarrow> res | Inl ex \<Rightarrow> []) = [''BTC'', ''ETH'', ''SOL'']
   \<and> expected_outcome example_base (mixed_env ''ETH'') ''ETH'' = None
   \<and> expected_outcome example_base (mixed_env ''BTC'') ''BTC''
       = Some ''/app/screenshots/BTC_20240102_030405.png''"
proof -
  from capture_all_screenshots_key_set [of example_base mixed_env "[]" live_scraper]
  obtain res s' where "capture_all_screenshots example_base mixed_env live_scraper = (Inr res, s')"
    and "map fst res = [''BTC'', ''ETH'', ''SOL'']"
    by (elim conjE exE)
  then show ?thesis
    by (simp add: expected_outcome_def mixed_env_def example_envs example_filepath)
qed

text \<open>
  Claim C9. When the browser was never started, the aggregator does not raise. The capture
  of every symbol of the table, in the state the loop has reached at that symbol, raises
  the initialization error and changes nothing. The loop catches each of these errors: it
  ends with every symbol mapped to \<^verbatim>\<open>None\<close>, and what the run has done is exactly to log,
  in the order of the table, one line per symbol that carries the text of the
  initialization error; no call is made to the browser.
\<close>

theorem no_browser_all_outcomes_absent:
  assumes "browser s = None"
  shows "(\<forall>pre symbol url rest. items = pre @ (symbol, url) # rest \<longrightarrow>
            capture_screenshot base_dir (env symbol) symbol url
                (snd (capture_all_items base_dir env pre [] s))
              = (Inl init_error, snd (capture_all_items base_dir env pre [] s)))
         \<and> (\<exists>res. capture_all_items base_dir env items [] s
                      = (Inr res, s\<lparr>logs := logs s @ map init_error_line items\<rparr>)
                \<and> fst ` set res = fst ` set items \<and> snd ` set res \<subseteq> {None})
         \<and> capture_all_screenshots base_dir env s
             = (Inr [(''BTC'', None), (''ETH'', None), (''SOL'', None)],
                s\<lparr>logs := logs s @ map init_error_line CRYPTO_SYMBOLS\<rparr>)"
proof (intro conjI allI impI)
  fix pre symbol url rest
  have "browser (snd (capture_all_items base_dir env pre [] s)) = None"
    using assms by (simp add: capture_all_items_browser)
  then show "capture_screenshot base_dir (env symbol) symbol url
                (snd (capture_all_items base_dir env pre [] s))
              = (Inl init_error, snd (capture_all_items base_dir env pre [] s))"
    by (rule capture_screenshot_no_browser)
next
  from capture_all_items_no_browser [OF assms, of base_dir env items "[]"]
  obtain res s' where run: "capture_all_items base_dir env items [] s = (Inr res, s')"
    and vals: "snd ` set res \<subseteq> {None}"
    by auto
  from capture_all_items_keys [of base_dir env items "[]" s] run
  have keys: "fst ` set res = fst ` set items" by auto
  from capture_all_items_no_browser_state [OF assms, of base_dir env items "[]"] run
  have "s' = s\<lparr>logs := logs s @ map init_error_line items\<rparr>" by simp
  with run keys vals
  show "\<exists>res. capture_all_items base_dir env items [] s
                      = (Inr res, s\<lparr>logs := logs s @ map init_error_line items\<rparr>)
                \<and> fst ` set res = fst ` set items \<and> snd ` set res \<subseteq> {None}"
    by auto
next
  from capture_all_items_no_browser [OF assms, of base_dir env CRYPTO_SYMBOLS "[]"]
  obtain res s' where run: "capture_all_items base_dir env CRYPTO_SYMBOLS [] s = (Inr res, s')"
    and vals: "snd ` set res \<subseteq> {None}"
    by auto
  have "distinct (map fst CRYPTO_SYMBOLS)" by (simp add: CRYPTO_SYMBOLS_keys)
  from capture_all_items_order [OF this, of "[]" base_dir env s]
  have keys: "map fst res = [''BTC'', ''ETH'', ''SOL'']"
    by (simp add: run CRYPTO_SYMBOLS_keys)
  from capture_all_items_no_browser_state [OF assms, of base_dir env CRYPTO_SYMBOLS "[]"] run
  have st: "s' = s\<lparr>logs := logs s @ map init_error_line CRYPTO_SYMBOLS\<rparr>" by simp
  from all_none_items [OF keys vals] run st
  show "capture_all_screenshots base_dir env s
             = (Inr [(''BTC'', None), (''ETH'', None), (''SOL'', None)],
                s\<lparr>logs := logs s @ map init_error_line CRYPTO_SYMBOLS\<rparr>)"
    by (simp add: capture_all_screenshots_def)
qed

theorem no_browser_all_outcomes_absent_witness:
  "browser new_scraper = None
   \<and> capture_screenshot example_base (mixed_env ''BTC'') ''BTC'' ''url'' new_scraper
       = (Inl (RuntimeError ''Browser not initialized. Call start_browser() first.''), new_scraper)
   \<and> fst (capture_all_screenshots example_base mixed_env new_scraper)
       = Inr [(''BTC'', None), (''ETH'', None), (''SOL'', None)]
   \<and> logs (snd (capture_all_screenshots example_base mixed_env new_scraper))
       = [(ERROR, ''Error capturing BTC: Browser not initialized. Call start_browser() first.''),
          (ERROR, ''Error capturing ETH: Browser not initialized. Call start_browser() first.''),
          (ERROR, ''Error capturing SOL: Browser not initialized. Call start_browser() first.'')]
   \<and> calls (snd (capture_all_screenshots example_base mixed_env new_scraper)) = []"
proof -
  have h: "browser new_scraper = None" by (simp add: new_scraper_def)
  note t = no_browser_all_outcomes_absent [OF h, of "[(''BTC'', ''url'')]" example_base mixed_env]
  have a: "capture_screenshot example_base (mixed_env ''BTC'') ''BTC'' ''url'' new_scraper
                  = (Inl init_error, new_scraper)"
    using t [THEN conjunct1, rule_format, of "[]" "''BTC''" "''url''" "[]"] by simp
  have b: "capture_all_screenshots example_base mixed_env new_scraper
             = (Inr [(''BTC'', None), (''ETH'', None), (''SOL'', None)],
                new_scraper\<lparr>logs := logs new_scraper @ map init_error_line CRYPTO_SYMBOLS\<rparr>)"
    using t [THEN conjunct2, THEN conjunct2] .
  from h a b show ?thesis
    by (simp add: init_error_def init_error_line_def CRYPTO_SYMBOLS_def new_scraper_def)
qed

text \<open>
  Claim C2. Whenever the capture of a symbol raises, at any position of the table, the
  aggregator catches the exception in the loop: it logs the error, stores \<^verbatim>\<open>None\<close>
  for that symbol and goes on with the symbols that follow exactly as the loop runs over
  them from the state after the log line. The run ends with a mapping that has a key for
  every later symbol, and with a live browser a page is requested once for every symbol
  of the table, the ones after the failure included.
\<close>

theorem aggregator_continues_after_exception:
  assumes raised:
    "fst (capture_screenshot base_dir (env symbol) symbol url
            (snd (capture_all_items base_dir env pre results s))) = Inl ex"
  shows "is_Exception ex
    \<and> (\<exists>res s'. capture_all_items base_dir env (pre @ (symbol, url) # rest) results s = (Inr res, s')
          \<and> fst ` set rest \<subseteq> fst ` set res
          \<and> (symbol \<notin> fst ` set rest \<longrightarrow> map_of res symbol = Some None)
          \<and> (ERROR, ''Error capturing '' @ symbol @ '': '' @ exn_str ex) \<in> set (logs s')
          \<and> (browser s \<noteq> None \<longrightarrow>
                new_page_calls s' = new_page_calls s + length pre + 1 + length rest))
    \<and> capture_all_items base_dir env (pre @ (symbol, url) # rest) results s
        = capture_all_items base_dir env rest
            (AList.update symbol None
               (case fst (capture_all_items base_dir env pre results s) of
                  Inr r \<Rightarrow> r | Inl x \<Rightarrow> []))
            (log_msg ERROR (''Error capturing '' @ symbol @ '': '' @ exn_str ex)
               (snd (capture_screenshot base_dir (env symbol) symbol url
                       (snd (capture_all_items base_dir env pre results s)))))"
proof -
  let ?msg = "(ERROR, ''Error capturing '' @ symbol @ '': '' @ exn_str ex)"
  from capture_all_items_keys [of base_dir env pre results s]
  obtain res1 s1 where pre: "capture_all_items base_dir env pre results s = (Inr res1, s1)"
    by auto
  let ?s2 = "log_msg ERROR (''Error capturing '' @ symbol @ '': '' @ exn_str ex)
               (snd (capture_screenshot base_dir (env symbol) symbol url s1))"
  from raised have r1: "fst (capture_screenshot base_dir (env symbol) symbol url s1) = Inl ex"
    by (simp add: pre)
  have ex: "is_Exception ex"
    using capture_screenshot_raises_Exception [OF r1] .
  have io: "item_outcome base_dir (env symbol) symbol url s1 = (None, ?s2)"
    using item_outcome_raise [OF r1] .
  have whole: "capture_all_items base_dir env (pre @ (symbol, url) # rest) results s
                 = capture_all_items base_dir env rest (AList.update symbol None res1) ?s2"
    by (simp only: capture_all_items_append pre capture_all_items_Cons io
        prod.case sum.case fst_conv snd_conv)
  from capture_all_items_keys [of base_dir env rest "AList.update symbol None res1" ?s2]
  obtain res s' where
    run: "capture_all_items base_dir env rest (AList.update symbol None res1) ?s2 = (Inr res, s')"
    and keys: "fst ` set res = fst ` set (AList.update symbol None res1) \<union> fst ` set rest"
    and frame: "\<forall>k. k \<notin> fst ` set rest \<longrightarrow> map_of res k = map_of (AList.update symbol None res1) k"
    by auto
  have a: "capture_all_items base_dir env (pre @ (symbol, url) # rest) results s = (Inr res, s')"
    using whole run by simp
  have b: "fst ` set rest \<subseteq> fst ` set res" using keys by auto
  have c: "symbol \<notin> fst ` set rest \<longrightarrow> map_of res symbol = Some None"
    using frame by (simp add: update_conv')
  have d: "?msg \<in> set (logs s')"
  proof -
    have "\<exists>xs. logs s' = logs ?s2 @ xs"
      using capture_all_items_logs [of base_dir env rest "AList.update symbol None res1" ?s2]
      by (simp only: run snd_conv)
    then obtain xs where "logs s' = logs ?s2 @ xs" ..
    then show ?thesis by (simp add: log_msg_def)
  qed
  have e: "browser s \<noteq> None \<longrightarrow>
             new_page_calls s' = new_page_calls s + length pre + 1 + length rest"
  proof
    assume live: "browser s \<noteq> None"
    from capture_all_items_new_page_calls [OF live, of base_dir env "pre @ (symbol, url) # rest" results]
    show "new_page_calls s' = new_page_calls s + length pre + 1 + length rest"
      by (simp add: a)
  qed
  have f: "capture_all_items base_dir env (pre @ (symbol, url) # rest) results s
        = capture_all_items base_dir env rest
            (AList.update symbol None
               (case fst (capture_all_items base_dir env pre results s) of
                  Inr r \<Rightarrow> r | Inl x \<Rightarrow> []))
            (log_msg ERROR (''Error capturing '' @ symbol @ '': '' @ exn_str ex)
               (snd (capture_screenshot base_dir (env symbol) symbol url
                       (snd (capture_all_items base_dir env pre results s)))))"
    using whole by (simp add: pre)
  from ex a b c d e f show ?thesis by blast
qed


theorem aggregator_continues_after_exception_witness:
  "fst (capture_screenshot example_base (btc_close_fails ''BTC'') ''BTC'' ''url'' live_scraper)
     = Inl (LibraryError ''Connection closed'')
   \<and> map_of (case fst (capture_all_items example_base btc_close_fails
                        [(''BTC'', ''url''), (''ETH'', ''url''), (''SOL'', ''url'')] [] live_scraper) of
               Inr res \<Rightarrow> res | Inl x \<Rightarrow> []) ''BTC'' = Some None
   \<and> new_page_calls (snd (capture_all_items example_base btc_close_fails
                        [(''BTC'', ''url''), (''ETH'', ''url''), (''SOL'', ''url'')] [] live_scraper)) = 3
   \<and> (ERROR, ''Error capturing BTC: Connection closed'')
       \<in> set (logs (snd (capture_all_items example_base btc_close_fails
                        [(''BTC'', ''url''), (''ETH'', ''url''), (''SOL'', ''url'')] [] live_scraper)))"
proof -
  have live: "browser live_scraper \<noteq> None" by (simp add: live_scraper_fields)
  have h: "fst (capture_screenshot example_base (btc_close_fails ''BTC'') ''BTC'' ''url''
                  (snd (capture_all_items example_base btc_close_fails [] [] live_scraper)))
             = Inl (LibraryError ''Connection closed'')"
    using capture_screenshot_result [OF live, of example_base close_fails "''BTC''" "''url''"]
    by (simp add: btc_close_fails_def example_envs)
  from aggregator_continues_after_exception
         [OF h, of "[(''ETH'', ''url''), (''SOL'', ''url'')]"]
  obtain res s' where
    run: "capture_all_items example_base btc_close_fails
            [(''BTC'', ''url''), (''ETH'', ''url''), (''SOL'', ''url'')] [] live_scraper = (Inr res, s')"
    and v: "map_of res ''BTC'' = Some None"
    and l: "(ERROR, ''Error capturing BTC: Connection closed'') \<in> set (logs s')"
    and n: "new_page_calls s' = new_page_calls live_scraper + 3"
    using live by (auto simp del: capture_all_items.simps)
  have "new_page_calls live_scraper = 0"
    by (simp add: new_page_calls_def live_scraper_fields)
  with h run v l n show ?thesis by (simp del: capture_all_items.simps(2))
qed

section \<open>Properties of the screenshot path\<close>

text \<open>
  Claim C7, as amended. For every successful capture of a symbol that contains no path
  separator, the returned path is the output directory joined with a single component: its
  parent is the configured output directory and its name is the symbol, an underscore,
  the time formatted by the configured format, and \<^verbatim>\<open>.png\<close>. The formatted time is
  year, month, day, an underscore, hour, minute and second, each zero-padded, and does not
  depend on the microseconds.
\<close>

theorem screenshot_path_shape:
  assumes "CHR ''/'' \<notin> set symbol"
    and "fst (capture_screenshot base_dir e symbol url s) = Inr (Some p)"
  shows "p = path_str (screenshot_filepath base_dir e symbol)
    \<and> path_parent (screenshot_filepath base_dir e symbol) = SCREENSHOTS_DIR base_dir
    \<and> path_name (screenshot_filepath base_dir e symbol)
        = symbol @ ''_'' @ strftime TIMESTAMP_FORMAT (now_r e) @ ''.png''
    \<and> p = path_str (SCREENSHOTS_DIR base_dir) @ ''/'' @ symbol @ ''_''
            @ strftime TIMESTAMP_FORMAT (now_r e) @ ''.png''
    \<and> strftime TIMESTAMP_FORMAT (now_r e)
        = zero_pad 4 (year (now_r e)) @ zero_pad 2 (month (now_r e)) @ zero_pad 2 (day (now_r e))
          @ ''_'' @ zero_pad 2 (hour (now_r e)) @ zero_pad 2 (minute (now_r e))
          @ zero_pad 2 (second (now_r e))
    \<and> strftime TIMESTAMP_FORMAT ((now_r e)\<lparr>microsecond := us\<rparr>)
        = strftime TIMESTAMP_FORMAT (now_r e)"
proof -
  have live: "browser s \<noteq> None"
    using assms(2) by (cases "browser s") (auto simp: capture_screenshot_def)
  have p: "p = path_str (screenshot_filepath base_dir e symbol)"
    using capture_screenshot_result [OF live, of base_dir e symbol url] assms(2)
    by (cases "new_page_r e"; cases "close_r e"; cases "fatal_failure e") simp_all
  note fp = screenshot_filepath_simple [OF assms(1), of base_dir e]
  have parent: "path_parent (screenshot_filepath base_dir e symbol) = SCREENSHOTS_DIR base_dir"
    by (simp add: fp path_parent_def SCREENSHOTS_DIR_parts butlast_append)
  have name: "path_name (screenshot_filepath base_dir e symbol)
                = symbol @ ''_'' @ strftime TIMESTAMP_FORMAT (now_r e) @ ''.png''"
    by (simp add: fp path_name_last screenshot_filename_def)
  have "path_str (screenshot_filepath base_dir e symbol)
          = path_str (SCREENSHOTS_DIR base_dir) @ ''/'' @ screenshot_filename e symbol"
    using path_str_snoc [of "SCREENSHOTS_DIR base_dir" "screenshot_filename e symbol"]
    by (simp add: fp SCREENSHOTS_DIR_parts)
  with p have str: "p = path_str (SCREENSHOTS_DIR base_dir) @ ''/'' @ symbol @ ''_''
            @ strftime TIMESTAMP_FORMAT (now_r e) @ ''.png''"
    by (simp add: screenshot_filename_def)
  have us: "strftime TIMESTAMP_FORMAT ((now_r e)\<lparr>microsecond := us\<rparr>)
        = strftime TIMESTAMP_FORMAT (now_r e)"
    by (simp add: strftime_TIMESTAMP_FORMAT)
  from p parent name str us strftime_TIMESTAMP_FORMAT [of "now_r e"]
  show ?thesis by (intro conjI)
qed

theorem screenshot_path_shape_witness:
  "CHR ''/'' \<notin> set ''BTC''
   \<and> fst (capture_screenshot example_base ok_env ''BTC'' ''url'' live_scraper)
       = Inr (Some ''/app/screenshots/BTC_20240102_030405.png'')
   \<and> path_str (SCREENSHOTS_DIR example_base) = ''/app/screenshots''
   \<and> path_name (screenshot_filepath example_base ok_env ''BTC'') = ''BTC_20240102_030405.png''
   \<and> path_parent (screenshot_filepath example_base ok_env ''BTC'') = SCREENSHOTS_DIR example_base"
proof -
  have live: "browser live_scraper \<noteq> None" by (simp add: live_scraper_fields)
  have h1: "CHR ''/'' \<notin> set ''BTC''" by simp
  have h2: "fst (capture_screenshot example_base ok_env ''BTC'' ''url'' live_scraper)
              = Inr (Some ''/app/screenshots/BTC_20240102_030405.png'')"
    using capture_screenshot_result [OF live, of example_base ok_env "''BTC''" "''url''"]
    by (simp add: example_envs example_filepath)
  have d: "path_str (SCREENSHOTS_DIR example_base) = ''/app/screenshots''"
    by (simp add: SCREENSHOTS_DIR_parts example_base_def path_str_def)
  from screenshot_path_shape [OF h1 h2] h1 h2 d
  show ?thesis by (simp add: example_envs example_timestamp)
qed

text \<open>
  Claim C7 as it was stated fails for symbols that contain a path separator. A symbol that
  begins with a slash makes the joined path absolute, so the file lands outside the output
  directory; a symbol with a slash inside puts the file into a subdirectory, under a name
  that is only the part of the symbol after the slash.
\<close>

theorem screenshot_path_outside_output_directory:
  "fst (capture_screenshot example_base ok_env ''/tmp/x'' ''url'' live_scraper)
     = Inr (Some ''/tmp/x_20240102_030405.png'')
   \<and> path_str (SCREENSHOTS_DIR example_base) = ''/app/screenshots''
   \<and> path_parent (screenshot_filepath example_base ok_env ''/tmp/x'')
       = \<lparr>root = ''/'', parts = [''tmp'']\<rparr>
   \<and> path_name (screenshot_filepath example_base ok_env ''/tmp/x'') \<noteq> ''/tmp/x_20240102_030405.png''
   \<and> fst (capture_screenshot example_base ok_env ''BTC/USDT'' ''url'' live_scraper)
       = Inr (Some ''/app/screenshots/BTC/USDT_20240102_030405.png'')
   \<and> path_name (screenshot_filepath example_base ok_env ''BTC/USDT'') = ''USDT_20240102_030405.png''"
proof -
  have live: "browser live_scraper \<noteq> None" by (simp add: live_scraper_fields)
  have a: "fst (capture_screenshot example_base ok_env ''/tmp/x'' ''url'' live_scraper)
             = Inr (Some ''/tmp/x_20240102_030405.png'')"
    using capture_screenshot_result [OF live, of example_base ok_env "''/tmp/x''" "''url''"]
    by (simp add: example_envs example_absolute_filepath path_str_def)
  have b: "path_str (SCREENSHOTS_DIR example_base) = ''/app/screenshots''"
    by (simp add: SCREENSHOTS_DIR_parts example_base_def path_str_def)
  have c: "path_parent (screenshot_filepath example_base ok_env ''/tmp/x'')
             = \<lparr>root = ''/'', parts = [''tmp'']\<rparr>"
    by (simp add: example_absolute_filepath path_parent_def)
  have d: "path_name (screenshot_filepath example_base ok_env ''/tmp/x'')
             \<noteq> ''/tmp/x_20240102_030405.png''"
    by (simp add: example_absolute_filepath path_name_def)
  have e: "fst (capture_screenshot example_base ok_env ''BTC/USDT'' ''url'' live_scraper)
             = Inr (Some ''/app/screenshots/BTC/USDT_20240102_030405.png'')"
    using capture_screenshot_result [OF live, of example_base ok_env "''BTC/USDT''" "''url''"]
    by (simp add: example_envs example_nested_filepath path_str_def)
  have f: "path_name (screenshot_filepath example_base ok_env ''BTC/USDT'')
             = ''USDT_20240102_030405.png''"
    by (simp add: example_nested_filepath path_name_def)
  from a b c d e f show ?thesis by (intro conjI)
qed

section \<open>Properties of the pipeline's shutdown and startup\<close>

text \<open>
  Claim C10. With no browser (\<^verbatim>\<open>self.browser\<close> is \<^verbatim>\<open>None\<close>), \<^verbatim>\<open>close_browser\<close> returns
  normally and leaves the scraper exactly as it was, whatever the browser would reply.
  So \<^verbatim>\<open>stop\<close> returns normally and leaves the scraper unchanged when it is called
  before the browser was started (the scheduler, if it runs, shutting down normally), and
  after a failed \<^verbatim>\<open>start_browser\<close> the browser is still absent, so that \<^verbatim>\<open>close_browser\<close>
  is a no-operation there as well.
\<close>

theorem close_browser_without_browser:
  assumes "browser s = None"
  shows "close_browser r s = (Inr (), s)
     \<and> (scraper p = s \<and> (scheduler_running p \<longrightarrow> r1 = Ok) \<longrightarrow>
          fst (stop r1 r2 p) = Inr () \<and> scraper (snd (stop r1 r2 p)) = s)
     \<and> (fst (start_browser pr lr s) \<noteq> Inr () \<longrightarrow>
          browser (snd (start_browser pr lr s)) = None
          \<and> close_browser r (snd (start_browser pr lr s))
              = (Inr (), snd (start_browser pr lr s)))"
proof (intro conjI impI)
  show c: "close_browser r s = (Inr (), s)"
    using assms by (simp add: close_browser_def)
  {
    assume a: "scraper p = s \<and> (scheduler_running p \<longrightarrow> r1 = Ok)"
    then have b: "browser (scraper p) = None" using assms by simp
    show "fst (stop r1 r2 p) = Inr ()"
      using a b by (cases "scheduler_running p")
        (simp_all add: stop_def plog_def scheduler_shutdown_def close_browser_def Let_def)
    show "scraper (snd (stop r1 r2 p)) = s"
      using a b by (cases "scheduler_running p")
        (simp_all add: stop_def plog_def scheduler_shutdown_def close_browser_def Let_def)
  }
  {
    assume f: "fst (start_browser pr lr s) \<noteq> Inr ()"
    show n: "browser (snd (start_browser pr lr s)) = None"
      using start_browser_failure(1) [OF assms f] .
    show "close_browser r (snd (start_browser pr lr s)) = (Inr (), snd (start_browser pr lr s))"
      using n by (simp add: close_browser_def)
  }
qed

theorem close_browser_without_browser_witness:
  "browser new_scraper = None
   \<and> close_browser (Fail ''unused'') new_scraper = (Inr (), new_scraper)
   \<and> fst (stop Ok Ok new_pipeline) = Inr ()
   \<and> scraper (snd (stop Ok Ok new_pipeline)) = new_scraper
   \<and> fst (start_browser Ok (Fail ''Executable does not exist'') new_scraper) \<noteq> Inr ()
   \<and> browser (snd (start_browser Ok (Fail ''Executable does not exist'') new_scraper)) = None"
proof -
  have h: "browser new_scraper = None" by (simp add: new_scraper_def)
  have p: "scraper new_pipeline = new_scraper" "\<not> scheduler_running new_pipeline"
    by (simp_all add: new_pipeline_def)
  have f: "fst (start_browser Ok (Fail ''Executable does not exist'') new_scraper) \<noteq> Inr ()"
    by (simp add: start_browser_def lib_call_def)
  from close_browser_without_browser
         [OF h, of "Fail ''unused''" new_pipeline Ok Ok Ok "Fail ''Executable does not exist''"]
    h p f
  show ?thesis by simp
qed

text \<open>
  Claim C3 says that a browser that fails to launch makes the failure reach the caller and
  the process exit with a non-zero status. \<^verbatim>\<open>start_browser\<close> does log and re-raise, and
  the block under \<^verbatim>\<open>__main__\<close> does turn an exception into \<^verbatim>\<open>sys.exit(1)\<close>; but
  \<^verbatim>\<open>start\<close>, between the two, catches the exception, logs it, awaits \<^verbatim>\<open>stop\<close> and
  returns normally. The entry point evaluated where the launch fails: \<^verbatim>\<open>main\<close> returns
  normally and the exit status is 0.
\<close>

theorem launch_failure_exits_with_status_zero:
  "playwright_r launch_fails = Ok
   \<and> launch_r launch_fails = Fail ''Executable does not exist''
   \<and> fst (start_browser (playwright_r launch_fails) (launch_r launch_fails) new_scraper)
       = Inl (LibraryError ''Executable does not exist'')
   \<and> map_option fst (main example_base launch_fails) = Some (Inr ())
   \<and> map_option (pipeline_logs \<circ> snd) (main example_base launch_fails)
       = Some [(INFO, ''Starting TradingView Screenshot Pipeline...''),
               (ERROR, ''Pipeline error: Executable does not exist''),
               (INFO, ''Stopping pipeline...''),
               (INFO, ''Pipeline stopped successfully'')]
   \<and> run_main example_base launch_fails = Some (0, [])"
proof -
  have e: "playwright_r launch_fails = Ok"
    "launch_r launch_fails = Fail ''Executable does not exist''"
    by (simp_all add: launch_fails_def)
  then have h: "playwright_r launch_fails = Fail ''Executable does not exist''
      \<or> (playwright_r launch_fails = Ok \<and> launch_r launch_fails = Fail ''Executable does not exist'')"
    by simp
  have sb: "fst (start_browser (playwright_r launch_fails) (launch_r launch_fails) new_scraper)
              = Inl (LibraryError ''Executable does not exist'')"
    by (simp add: e start_browser_def lib_call_def)
  from start_swallows_browser_failure [OF h, of example_base] e sb
  show ?thesis by (simp add: main_def)
qed

section \<open>Runs in flight\<close>

text \<open>
  Claim C8 says that at most one run of the job is ever in flight. The runs the scheduler
  starts never overlap one another: a tick that finds a run of the scheduler's in
  progress is skipped. The initial run is awaited by \<^verbatim>\<open>start\<close> itself and is not counted
  by the scheduler, so a tick that fires before the initial run has finished starts a
  second run: two runs in flight.
\<close>

theorem initial_run_overlaps_scheduled_run:
  "in_flight (foldl flight_step flight0 [Initial_Start, Tick]) = 2
   \<and> skipped (foldl flight_step flight0 [Initial_Start, Tick]) = 0
   \<and> in_flight (foldl flight_step flight0 [Tick, Tick]) = 1
   \<and> skipped (foldl flight_step flight0 [Tick, Tick]) = 1"
  by (simp add: flight0_def in_flight_def MAX_INSTANCES_def)

end
